theory Spec2Isabelle
  imports Complex_Main "HOL-Library.Sublist" "HOL-Library.Char_ord" "HOL-Library.List_Lexorder"
begin

section \<open>Python values\<close>

text \<open>
  The extractor of \<^verbatim>\<open>src/parser/dealroom_extractor.py\<close> works on dynamically typed values:
  whatever \<^verbatim>\<open>json.loads\<close> returns flows into the record. A parsed JSON value is a
  tagged union; Python's \<^verbatim>\<open>None\<close> is \<open>JNull\<close>, a \<^verbatim>\<open>dict\<close> is an association list in
  insertion order (the keys of a parsed object are distinct). A Python \<^verbatim>\<open>float\<close> is a
  rational or one of the three special values \<^verbatim>\<open>json.loads\<close> accepts
  (\<^verbatim>\<open>Infinity\<close>, \<^verbatim>\<open>-Infinity\<close>, \<^verbatim>\<open>NaN\<close>).
\<close>

datatype pyfloat = Finite rat | PosInf | NegInf | NaN

datatype json =
    JNull
  | JBool bool
  | JInt int
  | JFloat pyfloat
  | JStr string
  | JList "json list"
  | JDict "(string \<times> json) list"

type_synonym pydict = "(string \<times> json) list"

text \<open>The exceptions that can leave a function of the extractor.\<close>

datatype py_error =
    AttributeError
  | TypeError
  | ValueError
  | OverflowError
  | JSONDecodeError
  | RecursionError

text \<open>Truthiness, as \<^verbatim>\<open>if x\<close>, \<^verbatim>\<open>not x\<close> and \<^verbatim>\<open>x or y\<close> test it.\<close>

fun truthy :: "json \<Rightarrow> bool" where
  "truthy JNull = False"
| "truthy (JBool b) = b"
| "truthy (JInt i) = (i \<noteq> 0)"
| "truthy (JFloat f) = (f \<noteq> Finite 0)"
| "truthy (JStr s) = (s \<noteq> [])"
| "truthy (JList xs) = (xs \<noteq> [])"
| "truthy (JDict d) = (d \<noteq> [])"

definition py_or :: "json \<Rightarrow> json \<Rightarrow> json" where
  "py_or a b = (if truthy a then a else b)"

text \<open>\<^verbatim>\<open>d.get(k)\<close>: the value, or \<^verbatim>\<open>None\<close> when the key is missing.\<close>

definition dict_get :: "pydict \<Rightarrow> string \<Rightarrow> json" where
  "dict_get d k = (case map_of d k of Some v \<Rightarrow> v | None \<Rightarrow> JNull)"

text \<open>\<^verbatim>\<open>d.setdefault(k, v)\<close>: writes only when the key is absent.\<close>

definition setdefault :: "(string \<times> string) list \<Rightarrow> string \<Rightarrow> string \<Rightarrow> (string \<times> string) list" where
  "setdefault d k v = (case map_of d k of Some _ \<Rightarrow> d | None \<Rightarrow> d @ [(k, v)])"

text \<open>\<^verbatim>\<open>[x for x in data if isinstance(x, dict)]\<close>\<close>

fun dicts_of :: "json list \<Rightarrow> pydict list" where
  "dicts_of [] = []"
| "dicts_of (JDict d # xs) = d # dicts_of xs"
| "dicts_of (_ # xs) = dicts_of xs"

subsection \<open>Strings\<close>

text \<open>
  A \<^verbatim>\<open>str\<close> is a \<open>string\<close>. \<^verbatim>\<open>s.lower()\<close> is modelled on the ASCII letters, which is
  what every keyword and domain the extractor looks for is made of; \<^verbatim>\<open>k in s\<close> is
  the contiguous-substring test; \<^verbatim>\<open>s.strip()\<close> removes the ASCII white space at both ends.
\<close>

definition lower_char :: "char \<Rightarrow> char" where
  "lower_char c =
     (case map_of (zip ''ABCDEFGHIJKLMNOPQRSTUVWXYZ'' ''abcdefghijklmnopqrstuvwxyz'') c of
        Some d \<Rightarrow> d
      | None \<Rightarrow> c)"

definition lower :: "string \<Rightarrow> string" where
  "lower s = map lower_char s"

fun substr :: "string \<Rightarrow> string \<Rightarrow> bool" where
  "substr k [] = (k = [])"
| "substr k (c # cs) = (prefix k (c # cs) \<or> substr k cs)"

definition is_space :: "char \<Rightarrow> bool" where
  "is_space c = (of_char c \<in> {9, 10, 11, 12, 13, 28, 29, 30, 31, 32 :: nat})"

definition strip :: "string \<Rightarrow> string" where
  "strip s = rev (dropWhile is_space (rev (dropWhile is_space s)))"

text \<open>\<^verbatim>\<open>str(i)\<close> for an integer: its decimal digits.\<close>

fun str_nat :: "nat \<Rightarrow> string" where
  "str_nat n =
     (if n < 10 then [''0123456789'' ! n]
      else str_nat (n div 10) @ [''0123456789'' ! (n mod 10)])"

definition str_int :: "int \<Rightarrow> string" where
  "str_int i = (if i < 0 then CHR ''-'' # str_nat (nat (- i)) else str_nat (nat i))"

text \<open>
  \<^verbatim>\<open>int(x)\<close> for a number: a \<^verbatim>\<open>bool\<close> is an \<^verbatim>\<open>int\<close>, a finite float is truncated
  towards zero, an infinity raises \<^verbatim>\<open>OverflowError\<close> and a NaN \<^verbatim>\<open>ValueError\<close>.
\<close>

definition int_of_float :: "pyfloat \<Rightarrow> py_error + int" where
  "int_of_float f =
     (case f of
        Finite r \<Rightarrow> Inr (if 0 \<le> r then \<lfloor>r\<rfloor> else \<lceil>r\<rceil>)
      | PosInf \<Rightarrow> Inl OverflowError
      | NegInf \<Rightarrow> Inl OverflowError
      | NaN \<Rightarrow> Inl ValueError)"

subsection \<open>The libraries\<close>

text \<open>
  The HTML parser (\<^verbatim>\<open>bs4\<close> on \<^verbatim>\<open>lxml\<close>) and \<^verbatim>\<open>json\<close> are not code of this repository.
  A parsed document is represented by the answers to the queries the extractor asks of
  it, one field per query; a script element by its \<^verbatim>\<open>.string\<close> and its \<^verbatim>\<open>.get_text()\<close>;
  a \<^verbatim>\<open>meta\<close> or \<^verbatim>\<open>link\<close> element by its attributes.
\<close>

record script =
  script_string :: "string option"
  script_get_text :: string

type_synonym tag = "(string \<times> string) list"

record soup =
  find_all_script_ld_json :: "script list"
    \<comment> \<open>\<^verbatim>\<open>soup.find_all("script", type="application/ld+json")\<close>\<close>
  find_all_a_href :: "string list"
    \<comment> \<open>\<^verbatim>\<open>a["href"]\<close> for every \<^verbatim>\<open>a\<close> of \<^verbatim>\<open>soup.find_all("a", href=True)\<close>\<close>
  find_meta_description :: "tag option"
    \<comment> \<open>\<^verbatim>\<open>soup.find("meta", attrs={"name": "description"})\<close>\<close>
  find_meta_og_description :: "tag option"
    \<comment> \<open>\<^verbatim>\<open>soup.find("meta", attrs={"property": "og:description"})\<close>\<close>
  find_link_canonical :: "tag option"
    \<comment> \<open>\<^verbatim>\<open>soup.find("link", rel="canonical")\<close>\<close>
  find_meta_og_url :: "tag option"
    \<comment> \<open>\<^verbatim>\<open>soup.find("meta", attrs={"property": "og:url"})\<close>\<close>
  get_text :: string
    \<comment> \<open>\<^verbatim>\<open>soup.get_text(separator=" ", strip=True)\<close>\<close>
  find_all_script :: "script list"
    \<comment> \<open>\<^verbatim>\<open>soup.find_all("script")\<close>\<close>

text \<open>
  The library functions are parameters of the model: the parser, \<^verbatim>\<open>json.loads\<close> (which
  returns a value or raises) and \<^verbatim>\<open>str\<close> on the values whose text is Python's
  \<^verbatim>\<open>repr\<close> (floats, lists and dicts).
\<close>

record runtime =
  BeautifulSoup :: "string \<Rightarrow> soup"
  json_loads :: "string \<Rightarrow> py_error + json"
  repr :: "json \<Rightarrow> string"

definition py_str :: "runtime \<Rightarrow> json \<Rightarrow> string" where
  "py_str rt v =
     (case v of
        JStr s \<Rightarrow> s
      | JInt i \<Rightarrow> str_int i
      | JBool b \<Rightarrow> (if b then ''True'' else ''False'')
      | JNull \<Rightarrow> ''None''
      | _ \<Rightarrow> repr rt v)"

text \<open>\<^verbatim>\<open>script.string or script.get_text()\<close>\<close>

definition payload :: "script \<Rightarrow> string" where
  "payload s =
     (case script_string s of
        Some t \<Rightarrow> (if t \<noteq> [] then t else script_get_text s)
      | None \<Rightarrow> script_get_text s)"

text \<open>
  The module's logger is the one piece of state that outlives a call: a call appends
  its messages to it.
\<close>

type_synonym log = "string list"

section \<open>The record\<close>

text \<open>
  The dataclass \<^verbatim>\<open>CompanyRecord\<close>. A field holds what the code can store in it: \<open>about\<close>
  takes any value of the structured metadata, the optional strings are \<open>None\<close> until
  written, the lists and dicts start empty (\<^verbatim>\<open>default_factory\<close> gives every record its own).
\<close>

record CompanyRecord =
  about :: json
  company_status :: "string option"
  funding_rounds :: "pydict list"
  growth_stage :: "string option"
  employees :: "string option"
  similarweb_traffic :: "string option"
  social_links :: "(string \<times> string) list"
  investors :: "pydict list"
  industries :: "string list"
  team :: "pydict list"
  hq_locations :: "pydict list"
  kpi_summary :: pydict
  nearby_companies :: "pydict list"
  related_companies :: "pydict list"
  news :: "pydict list"
  website_url :: "string option"
  linkedin_url :: "string option"
  twitter_url :: "string option"
  instagram_url :: "string option"
  raw_source_url :: "string option"

text \<open>\<^verbatim>\<open>CompanyRecord(raw_source_url=source_url)\<close>\<close>

definition new_CompanyRecord :: "string option \<Rightarrow> CompanyRecord" where
  "new_CompanyRecord source_url =
     \<lparr>about = JNull, company_status = None, funding_rounds = [], growth_stage = None,
      employees = None, similarweb_traffic = None, social_links = [], investors = [],
      industries = [], team = [], hq_locations = [], kpi_summary = [],
      nearby_companies = [], related_companies = [], news = [], website_url = None,
      linkedin_url = None, twitter_url = None, instagram_url = None,
      raw_source_url = source_url\<rparr>"

text \<open>The values of the record as \<^verbatim>\<open>to_dict\<close> puts them into \<^verbatim>\<open>data\<close>.\<close>

definition opt_str :: "string option \<Rightarrow> json" where
  "opt_str v = (case v of None \<Rightarrow> JNull | Some s \<Rightarrow> JStr s)"

definition dict_list :: "pydict list \<Rightarrow> json" where
  "dict_list ds = JList (map JDict ds)"

definition to_dict_data :: "CompanyRecord \<Rightarrow> pydict" where
  "to_dict_data r =
     [(''about'', about r),
      (''company_status'', opt_str (company_status r)),
      (''funding_rounds'', dict_list (funding_rounds r)),
      (''growth_stage'', opt_str (growth_stage r)),
      (''employees'', opt_str (employees r)),
      (''similarweb_traffic'', opt_str (similarweb_traffic r)),
      (''social_links'', JDict (map (\<lambda>(k, v). (k, JStr v)) (social_links r))),
      (''investors'', dict_list (investors r)),
      (''industries'', JList (map JStr (industries r))),
      (''team'', dict_list (team r)),
      (''hq_locations'', dict_list (hq_locations r)),
      (''kpi_summary'', JDict (kpi_summary r)),
      (''nearby_companies'', dict_list (nearby_companies r)),
      (''related_companies'', dict_list (related_companies r)),
      (''news'', dict_list (news r)),
      (''website_url'', opt_str (website_url r)),
      (''linkedin_url'', opt_str (linkedin_url r)),
      (''twitter_url'', opt_str (twitter_url r)),
      (''instagram_url'', opt_str (instagram_url r)),
      (''raw_source_url'', opt_str (raw_source_url r))]"

text \<open>The loop of \<^verbatim>\<open>to_dict\<close>: a key is skipped when its value is \<^verbatim>\<open>None\<close> or an empty list or dict.\<close>

fun cleaned :: "pydict \<Rightarrow> pydict" where
  "cleaned [] = []"
| "cleaned ((key, v) # rest) =
     (if v = JNull then cleaned rest
      else if v = JList [] \<or> v = JDict [] then cleaned rest
      else (key, v) # cleaned rest)"

definition to_dict :: "CompanyRecord \<Rightarrow> pydict" where
  "to_dict r = cleaned (to_dict_data r)"

section \<open>The structured-metadata locator\<close>

text \<open>
  \<^verbatim>\<open>any(t.lower() in ("organization", "corp", "corporation") for t in obj_type)\<close>: the
  entries are tried in order, and \<^verbatim>\<open>t.lower()\<close> on an entry that is not a string raises.
\<close>

fun any_org_type :: "json list \<Rightarrow> py_error + bool" where
  "any_org_type [] = Inr False"
| "any_org_type (JStr t # ts) =
     (if lower t \<in> set [''organization'', ''corp'', ''corporation''] then Inr True
      else any_org_type ts)"
| "any_org_type (_ # ts) = Inl AttributeError"

definition is_org :: "pydict \<Rightarrow> py_error + bool" where
  "is_org obj =
     (case dict_get obj ''@type'' of
        JList ts \<Rightarrow> any_org_type ts
      | JStr t \<Rightarrow>
          Inr (lower t \<in> set [''organization'', ''corp'', ''corporation'', ''company''])
      | _ \<Rightarrow> Inr False)"

definition candidates :: "json \<Rightarrow> pydict list" where
  "candidates data =
     (case data of JDict d \<Rightarrow> [d] | JList xs \<Rightarrow> dicts_of xs | _ \<Rightarrow> [])"

text \<open>\<^verbatim>\<open>for obj in candidates\<close>: the first accepted object is returned.\<close>

fun first_org :: "pydict list \<Rightarrow> py_error + pydict option" where
  "first_org [] = Inr None"
| "first_org (obj # objs) =
     (case is_org obj of
        Inl e \<Rightarrow> Inl e
      | Inr b \<Rightarrow> (if b then Inr (Some obj) else first_org objs))"

text \<open>
  \<^verbatim>\<open>for script in scripts\<close>: an empty payload and a payload that \<^verbatim>\<open>json.loads\<close> rejects
  with \<^verbatim>\<open>JSONDecodeError\<close> or \<^verbatim>\<open>TypeError\<close> are skipped; any other exception leaves the
  function. Finding a block writes one debug message.
\<close>

fun ld_scripts_loop ::
  "runtime \<Rightarrow> script list \<Rightarrow> log \<Rightarrow> (py_error + pydict option) \<times> log" where
  "ld_scripts_loop rt [] lg = (Inr None, lg)"
| "ld_scripts_loop rt (s # ss) lg =
     (if payload s = [] then ld_scripts_loop rt ss lg
      else
        (case json_loads rt (payload s) of
           Inl e \<Rightarrow>
             (if e = JSONDecodeError \<or> e = TypeError then ld_scripts_loop rt ss lg
              else (Inl e, lg))
         | Inr data \<Rightarrow>
             (case first_org (candidates data) of
                Inl e \<Rightarrow> (Inl e, lg)
              | Inr (Some obj) \<Rightarrow> (Inr (Some obj), lg @ [''Found Organization JSON-LD block''])
              | Inr None \<Rightarrow> ld_scripts_loop rt ss lg)))"

definition extract_ld_organization ::
  "runtime \<Rightarrow> soup \<Rightarrow> log \<Rightarrow> (py_error + pydict option) \<times> log" where
  "extract_ld_organization rt sp lg = ld_scripts_loop rt (find_all_script_ld_json sp) lg"

section \<open>Populating the record from the structured metadata\<close>

text \<open>A raised exception ends the call: the rest runs only on a returned value.\<close>

definition and_then :: "py_error + 'a \<Rightarrow> ('a \<Rightarrow> py_error + 'b) \<Rightarrow> py_error + 'b" where
  "and_then m f = (case m of Inl e \<Rightarrow> Inl e | Inr x \<Rightarrow> f x)"

text \<open>
  The social-link classifier. The three singular fields are assigned on every match;
  the entry of \<open>social_links\<close> is written by \<^verbatim>\<open>setdefault\<close>.
\<close>

definition assign_social_link :: "string \<Rightarrow> CompanyRecord \<Rightarrow> CompanyRecord" where
  "assign_social_link href record =
     (let href_lower = lower href in
      if substr ''linkedin.com'' href_lower then
        record\<lparr>linkedin_url := Some href,
               social_links := setdefault (social_links record) ''linkedin'' href\<rparr>
      else if substr ''twitter.com'' href_lower \<or> substr ''x.com'' href_lower then
        record\<lparr>twitter_url := Some href,
               social_links := setdefault (social_links record) ''twitter'' href\<rparr>
      else if substr ''instagram.com'' href_lower then
        record\<lparr>instagram_url := Some href,
               social_links := setdefault (social_links record) ''instagram'' href\<rparr>
      else if substr ''facebook.com'' href_lower then
        record\<lparr>social_links := setdefault (social_links record) ''facebook'' href\<rparr>
      else if substr ''youtube.com'' href_lower \<or> substr ''youtu.be'' href_lower then
        record\<lparr>social_links := setdefault (social_links record) ''youtube'' href\<rparr>
      else record)"

text \<open>\<^verbatim>\<open>for href in hrefs: self._assign_social_link(href, record)\<close>\<close>

fun assign_social_links :: "string list \<Rightarrow> CompanyRecord \<Rightarrow> CompanyRecord" where
  "assign_social_links [] record = record"
| "assign_social_links (href # hrefs) record =
     assign_social_links hrefs (assign_social_link href record)"

text \<open>
  \<^verbatim>\<open>ld.get("numberOfEmployees") or ld.get("employee", {}).get("count")\<close>: the second
  operand is evaluated when the first is falsy, and \<^verbatim>\<open>.get("count")\<close> raises on a value
  of \<^verbatim>\<open>employee\<close> that is not a dict.
\<close>

definition ld_employees :: "pydict \<Rightarrow> py_error + json" where
  "ld_employees ld =
     (if truthy (dict_get ld ''numberOfEmployees'') then Inr (dict_get ld ''numberOfEmployees'')
      else
        (case map_of ld ''employee'' of
           None \<Rightarrow> Inr JNull
         | Some (JDict e) \<Rightarrow> Inr (dict_get e ''count'')
         | Some _ \<Rightarrow> Inl AttributeError))"

text \<open>
  \<^verbatim>\<open>isinstance(employees, (int, float))\<close> holds of a \<^verbatim>\<open>bool\<close> too; the value is then
  \<^verbatim>\<open>str(int(employees))\<close>. A string is stored as it is, anything else leaves the field.
\<close>

definition set_employees :: "json \<Rightarrow> CompanyRecord \<Rightarrow> py_error + CompanyRecord" where
  "set_employees v record =
     (case v of
        JBool b \<Rightarrow> Inr (record\<lparr>employees := Some (str_int (if b then 1 else 0))\<rparr>)
      | JInt i \<Rightarrow> Inr (record\<lparr>employees := Some (str_int i)\<rparr>)
      | JFloat f \<Rightarrow>
          and_then (int_of_float f) (\<lambda>i. Inr (record\<lparr>employees := Some (str_int i)\<rparr>))
      | JStr s \<Rightarrow> Inr (record\<lparr>employees := Some s\<rparr>)
      | _ \<Rightarrow> Inr record)"

text \<open>\<^verbatim>\<open>isinstance(candidate, str) and candidate.startswith("http")\<close>\<close>

fun is_http_str :: "json \<Rightarrow> bool" where
  "is_http_str (JStr s) = prefix ''http'' s"
| "is_http_str _ = False"

definition ld_url :: "pydict \<Rightarrow> json" where
  "ld_url ld =
     (let url = py_or (py_or (dict_get ld ''url'') (dict_get ld ''sameAs'')) JNull in
      case url of
        JList cs \<Rightarrow> (case find is_http_str cs of Some c \<Rightarrow> c | None \<Rightarrow> url)
      | _ \<Rightarrow> url)"

definition ld_industries :: "runtime \<Rightarrow> pydict \<Rightarrow> string list" where
  "ld_industries rt ld =
     (case dict_get ld ''industry'' of
        JList xs \<Rightarrow> map (py_str rt) xs
      | JStr s \<Rightarrow> [s]
      | _ \<Rightarrow> [])"

definition ld_same_as :: "runtime \<Rightarrow> pydict \<Rightarrow> string list" where
  "ld_same_as rt ld =
     (case dict_get ld ''sameAs'' of
        JList xs \<Rightarrow> map (py_str rt) xs
      | JStr s \<Rightarrow> [s]
      | _ \<Rightarrow> [])"

definition populate_from_ld_json ::
  "runtime \<Rightarrow> pydict \<Rightarrow> CompanyRecord \<Rightarrow> py_error + CompanyRecord" where
  "populate_from_ld_json rt ld record =
     (let r1 = record\<lparr>about := py_or (dict_get ld ''description'') (about record)\<rparr>;
          r2 = (case ld_url ld of JStr s \<Rightarrow> r1\<lparr>website_url := Some s\<rparr> | _ \<Rightarrow> r1);
          r3 = (if ld_industries rt ld \<noteq> []
                then r2\<lparr>industries := sort (remdups (industries r2 @ ld_industries rt ld))\<rparr>
                else r2)
      in and_then (ld_employees ld) (\<lambda>v.
         and_then (set_employees v r3) (\<lambda>r4.
         Inr (assign_social_links (ld_same_as rt ld) r4))))"

section \<open>Links, meta tags, status and stage\<close>

definition populate_social_links :: "soup \<Rightarrow> CompanyRecord \<Rightarrow> CompanyRecord" where
  "populate_social_links sp record = assign_social_links (find_all_a_href sp) record"

text \<open>\<^verbatim>\<open>t.get(k)\<close> is truthy: the attribute is there and not empty.\<close>

definition attr :: "tag option \<Rightarrow> string \<Rightarrow> string option" where
  "attr t k =
     (case t of
        None \<Rightarrow> None
      | Some a \<Rightarrow> (case map_of a k of Some v \<Rightarrow> (if v \<noteq> [] then Some v else None) | None \<Rightarrow> None))"

definition populate_meta_fallbacks :: "soup \<Rightarrow> CompanyRecord \<Rightarrow> CompanyRecord" where
  "populate_meta_fallbacks sp record =
     (let r1 =
            (if \<not> truthy (about record) then
               (let meta_desc =
                      (case find_meta_description sp of
                         None \<Rightarrow> find_meta_og_description sp
                       | Some t \<Rightarrow> Some t)
                in case attr meta_desc ''content'' of
                     Some c \<Rightarrow> record\<lparr>about := JStr (strip c)\<rparr>
                   | None \<Rightarrow> record)
             else record)
      in if website_url r1 = None \<or> website_url r1 = Some [] then
           (case attr (find_link_canonical sp) ''href'' of
              Some h \<Rightarrow> r1\<lparr>website_url := Some h\<rparr>
            | None \<Rightarrow>
                (case attr (find_meta_og_url sp) ''content'' of
                   Some c \<Rightarrow> r1\<lparr>website_url := Some c\<rparr>
                 | None \<Rightarrow> r1))
         else r1)"

definition stage_keywords :: "(string \<times> string) list" where
  "stage_keywords =
     [(''seed'', ''seed''),
      (''series a'', ''early growth''),
      (''series b'', ''growth''),
      (''series c'', ''late growth''),
      (''series d'', ''late growth''),
      (''pre-seed'', ''pre-seed''),
      (''early stage'', ''early growth''),
      (''late stage'', ''late growth''),
      (''scaleup'', ''scaleup'')]"

text \<open>\<^verbatim>\<open>for key, stage in stage_keywords: if key in text: ...; break\<close>\<close>

fun stage_loop :: "(string \<times> string) list \<Rightarrow> string \<Rightarrow> CompanyRecord \<Rightarrow> CompanyRecord" where
  "stage_loop [] text record = record"
| "stage_loop ((key, stage) # rest) text record =
     (if substr key text then record\<lparr>growth_stage := Some stage\<rparr>
      else stage_loop rest text record)"

definition populate_status_and_stage :: "soup \<Rightarrow> CompanyRecord \<Rightarrow> CompanyRecord" where
  "populate_status_and_stage sp record =
     (let text = lower (get_text sp);
          r1 =
            (if company_status record = None then
               (if substr ''closed'' text \<or> substr ''defunct'' text then
                  record\<lparr>company_status := Some ''closed''\<rparr>
                else if substr ''acquired'' text then
                  record\<lparr>company_status := Some ''acquired''\<rparr>
                else if substr ''ipo'' text then
                  record\<lparr>company_status := Some ''public''\<rparr>
                else record\<lparr>company_status := Some ''operational''\<rparr>)
             else record)
      in if growth_stage r1 = None then stage_loop stage_keywords text r1 else r1)"

section \<open>Funding rounds and investors\<close>

text \<open>The normalised round and investor that the walk appends.\<close>

definition clean_round :: "pydict \<Rightarrow> pydict" where
  "clean_round fr =
     [(''year'', py_or (py_or (dict_get fr ''year'') (dict_get fr ''date'')) (dict_get fr ''round_year'')),
      (''round'', py_or (dict_get fr ''round'') (dict_get fr ''type'')),
      (''amount'', py_or (dict_get fr ''amount'') (dict_get fr ''raised'')),
      (''currency'', py_or (dict_get fr ''currency'') (dict_get fr ''currency_code'')),
      (''investors'', py_or (dict_get fr ''investors'') (JList []))]"

definition clean_investor :: "pydict \<Rightarrow> pydict" where
  "clean_investor investor =
     [(''name'', dict_get investor ''name''),
      (''type'', dict_get investor ''type''),
      (''path'', py_or (dict_get investor ''path'') (dict_get investor ''slug''))]"

text \<open>
  \<^verbatim>\<open>if k in node and isinstance(node[k], list): for x in node[k]: if not isinstance(x, dict): continue\<close>
\<close>

definition dict_entries :: "pydict \<Rightarrow> string \<Rightarrow> pydict list" where
  "dict_entries node k = (case map_of node k of Some (JList xs) \<Rightarrow> dicts_of xs | _ \<Rightarrow> [])"

definition harvest_node :: "pydict \<Rightarrow> CompanyRecord \<Rightarrow> CompanyRecord" where
  "harvest_node node record =
     record\<lparr>funding_rounds :=
              funding_rounds record @ map clean_round (dict_entries node ''funding_rounds''),
            investors := investors record @ map clean_investor (dict_entries node ''investors'')\<rparr>"

text \<open>The recursive walk: a dict harvests itself and then its values in order, a list its items.\<close>

fun walk_for_funding_and_investors :: "json \<Rightarrow> CompanyRecord \<Rightarrow> CompanyRecord"
and walk_funding_items :: "json list \<Rightarrow> CompanyRecord \<Rightarrow> CompanyRecord"
and walk_funding_values :: "pydict \<Rightarrow> CompanyRecord \<Rightarrow> CompanyRecord" where
  "walk_for_funding_and_investors (JDict node) record =
     walk_funding_values node (harvest_node node record)"
| "walk_for_funding_and_investors (JList items) record = walk_funding_items items record"
| "walk_for_funding_and_investors JNull record = record"
| "walk_for_funding_and_investors (JBool _) record = record"
| "walk_for_funding_and_investors (JInt _) record = record"
| "walk_for_funding_and_investors (JFloat _) record = record"
| "walk_for_funding_and_investors (JStr _) record = record"
| "walk_funding_items [] record = record"
| "walk_funding_items (item # items) record =
     walk_funding_items items (walk_for_funding_and_investors item record)"
| "walk_funding_values [] record = record"
| "walk_funding_values (kv # kvs) record =
     walk_funding_values kvs (walk_for_funding_and_investors (snd kv) record)"

text \<open>
  The scan of the script blocks: a block without the text \<^verbatim>\<open>funding\<close> or \<^verbatim>\<open>investor\<close>
  is skipped, and so is one on which \<^verbatim>\<open>json.loads\<close> raises anything.
\<close>

fun funding_scripts_loop :: "runtime \<Rightarrow> script list \<Rightarrow> CompanyRecord \<Rightarrow> CompanyRecord" where
  "funding_scripts_loop rt [] record = record"
| "funding_scripts_loop rt (s # ss) record =
     (if payload s = [] then funding_scripts_loop rt ss record
      else if \<not> substr ''funding'' (payload s) \<and> \<not> substr ''investor'' (payload s)
        then funding_scripts_loop rt ss record
      else
        (case json_loads rt (payload s) of
           Inl e \<Rightarrow> funding_scripts_loop rt ss record
         | Inr data \<Rightarrow>
             funding_scripts_loop rt ss (walk_for_funding_and_investors data record)))"

text \<open>
  The keys of the \<^verbatim>\<open>seen\<close> sets. A set compares by hash and \<^verbatim>\<open>==\<close>: \<^verbatim>\<open>True\<close>, \<^verbatim>\<open>1\<close> and
  \<^verbatim>\<open>1.0\<close> are one key, and a list or a dict cannot be hashed (\<^verbatim>\<open>TypeError\<close>).
\<close>

datatype hkey = HNone | HNum pyfloat | HStr string

fun hash_key :: "json \<Rightarrow> hkey option" where
  "hash_key JNull = Some HNone"
| "hash_key (JBool b) = Some (HNum (Finite (if b then 1 else 0)))"
| "hash_key (JInt i) = Some (HNum (Finite (of_int i)))"
| "hash_key (JFloat f) = Some (HNum f)"
| "hash_key (JStr s) = Some (HStr s)"
| "hash_key (JList _) = None"
| "hash_key (JDict _) = None"

definition round_key :: "pydict \<Rightarrow> (hkey \<times> hkey \<times> hkey \<times> hkey) option" where
  "round_key fr =
     (case (hash_key (dict_get fr ''year''), hash_key (dict_get fr ''round''),
            hash_key (dict_get fr ''amount''), hash_key (dict_get fr ''currency'')) of
        (Some y, Some r, Some a, Some c) \<Rightarrow> Some (y, r, a, c)
      | _ \<Rightarrow> None)"

fun unique_rounds_loop ::
  "pydict list \<Rightarrow> (hkey \<times> hkey \<times> hkey \<times> hkey) set \<Rightarrow> pydict list \<Rightarrow> py_error + pydict list" where
  "unique_rounds_loop [] seen_rounds unique_rounds = Inr unique_rounds"
| "unique_rounds_loop (fr # frs) seen_rounds unique_rounds =
     (case round_key fr of
        None \<Rightarrow> Inl TypeError
      | Some key \<Rightarrow>
          (if key \<in> seen_rounds then unique_rounds_loop frs seen_rounds unique_rounds
           else unique_rounds_loop frs (insert key seen_rounds) (unique_rounds @ [fr])))"

text \<open>\<^verbatim>\<open>if not name or name in seen_investors: continue\<close>: a falsy name is never hashed.\<close>

fun unique_investors_loop ::
  "pydict list \<Rightarrow> hkey set \<Rightarrow> pydict list \<Rightarrow> py_error + pydict list" where
  "unique_investors_loop [] seen_investors unique_investors = Inr unique_investors"
| "unique_investors_loop (investor # invs) seen_investors unique_investors =
     (if \<not> truthy (dict_get investor ''name'')
        then unique_investors_loop invs seen_investors unique_investors
      else
        (case hash_key (dict_get investor ''name'') of
           None \<Rightarrow> Inl TypeError
         | Some name \<Rightarrow>
             (if name \<in> seen_investors
                then unique_investors_loop invs seen_investors unique_investors
              else unique_investors_loop invs (insert name seen_investors)
                     (unique_investors @ [investor]))))"

definition populate_funding_and_investors ::
  "runtime \<Rightarrow> soup \<Rightarrow> CompanyRecord \<Rightarrow> py_error + CompanyRecord" where
  "populate_funding_and_investors rt sp record =
     (let r1 = funding_scripts_loop rt (find_all_script sp) record in
      and_then (unique_rounds_loop (funding_rounds r1) {} []) (\<lambda>unique_rounds.
      and_then (unique_investors_loop (investors r1) {} []) (\<lambda>unique_investors.
      Inr (r1\<lparr>funding_rounds := unique_rounds, investors := unique_investors\<rparr>))))"

section \<open>Locations\<close>

definition location_of :: "pydict \<Rightarrow> pydict list" where
  "location_of node =
     (case dict_get node ''address'' of
        JDict addr \<Rightarrow>
          (let address = py_or (py_or (dict_get addr ''streetAddress'') (dict_get addr ''address''))
                           (dict_get addr ''full'');
               country = py_or (dict_get addr ''addressCountry'') (dict_get addr ''country'')
           in if truthy address \<or> truthy country
              then [[(''address'', address), (''country'', country)]]
              else [])
      | _ \<Rightarrow> [])"

fun walk_for_locations :: "json \<Rightarrow> CompanyRecord \<Rightarrow> CompanyRecord"
and walk_location_items :: "json list \<Rightarrow> CompanyRecord \<Rightarrow> CompanyRecord"
and walk_location_values :: "pydict \<Rightarrow> CompanyRecord \<Rightarrow> CompanyRecord" where
  "walk_for_locations (JDict node) record =
     walk_location_values node
       (record\<lparr>hq_locations := hq_locations record @ location_of node\<rparr>)"
| "walk_for_locations (JList items) record = walk_location_items items record"
| "walk_for_locations JNull record = record"
| "walk_for_locations (JBool _) record = record"
| "walk_for_locations (JInt _) record = record"
| "walk_for_locations (JFloat _) record = record"
| "walk_for_locations (JStr _) record = record"
| "walk_location_items [] record = record"
| "walk_location_items (item # items) record =
     walk_location_items items (walk_for_locations item record)"
| "walk_location_values [] record = record"
| "walk_location_values (kv # kvs) record =
     walk_location_values kvs (walk_for_locations (snd kv) record)"

fun location_scripts_loop :: "runtime \<Rightarrow> script list \<Rightarrow> CompanyRecord \<Rightarrow> CompanyRecord" where
  "location_scripts_loop rt [] record = record"
| "location_scripts_loop rt (s # ss) record =
     (if payload s = [] \<or> \<not> substr ''address'' (payload s)
        then location_scripts_loop rt ss record
      else
        (case json_loads rt (payload s) of
           Inl e \<Rightarrow> location_scripts_loop rt ss record
         | Inr data \<Rightarrow> location_scripts_loop rt ss (walk_for_locations data record)))"

definition location_key :: "pydict \<Rightarrow> (hkey \<times> hkey) option" where
  "location_key loc =
     (case (hash_key (dict_get loc ''address''), hash_key (dict_get loc ''country'')) of
        (Some a, Some c) \<Rightarrow> Some (a, c)
      | _ \<Rightarrow> None)"

fun unique_locations_loop ::
  "pydict list \<Rightarrow> (hkey \<times> hkey) set \<Rightarrow> pydict list \<Rightarrow> py_error + pydict list" where
  "unique_locations_loop [] seen unique_locations = Inr unique_locations"
| "unique_locations_loop (loc # locs) seen unique_locations =
     (case location_key loc of
        None \<Rightarrow> Inl TypeError
      | Some key \<Rightarrow>
          (if key \<in> seen then unique_locations_loop locs seen unique_locations
           else unique_locations_loop locs (insert key seen) (unique_locations @ [loc])))"

definition populate_locations ::
  "runtime \<Rightarrow> soup \<Rightarrow> CompanyRecord \<Rightarrow> py_error + CompanyRecord" where
  "populate_locations rt sp record =
     (let r1 = location_scripts_loop rt (find_all_script sp) record in
      and_then (unique_locations_loop (hq_locations r1) {} []) (\<lambda>unique_locations.
      Inr (r1\<lparr>hq_locations := unique_locations\<rparr>)))"

section \<open>The entry point\<close>

text \<open>
  The passes of \<^verbatim>\<open>extract_company_data\<close> after the locator, on the record of this call.
  \<^verbatim>\<open>if ld_org\<close> is the truthiness of the located dict.
\<close>

definition run_passes ::
  "runtime \<Rightarrow> soup \<Rightarrow> pydict option \<Rightarrow> CompanyRecord \<Rightarrow> py_error + pydict" where
  "run_passes rt sp ld_org record =
     and_then
       (case ld_org of
          None \<Rightarrow> Inr record
        | Some ld \<Rightarrow> (if ld \<noteq> [] then populate_from_ld_json rt ld record else Inr record))
       (\<lambda>r1.
          and_then
            (populate_funding_and_investors rt sp
               (populate_status_and_stage sp
                  (populate_meta_fallbacks sp (populate_social_links sp r1))))
            (\<lambda>r2. and_then (populate_locations rt sp r2) (\<lambda>r3. Inr (to_dict r3))))"

text \<open>
  A call takes the logger's state and returns it with the result: the returned mapping,
  or the exception that left the call.
\<close>

definition extract_company_data ::
  "runtime \<Rightarrow> log \<Rightarrow> string \<Rightarrow> string option \<Rightarrow> (py_error + pydict) \<times> log" where
  "extract_company_data rt lg html source_url =
     (let sp = BeautifulSoup rt html;
          record = new_CompanyRecord source_url;
          found = extract_ld_organization rt sp lg
      in (and_then (fst found) (\<lambda>ld_org. run_passes rt sp ld_org record), snd found))"

section \<open>Example documents\<close>

text \<open>
  Concrete inputs on which the extractor is run below. A runtime is given by the document
  its parser returns and by a table of the payloads \<^verbatim>\<open>json.loads\<close> accepts; every other
  payload is rejected with \<^verbatim>\<open>JSONDecodeError\<close>.
\<close>

definition loads_table :: "(string \<times> json) list \<Rightarrow> string \<Rightarrow> py_error + json" where
  "loads_table tbl s = (case map_of tbl s of Some v \<Rightarrow> Inr v | None \<Rightarrow> Inl JSONDecodeError)"

definition runtime_of :: "soup \<Rightarrow> (string \<times> json) list \<Rightarrow> runtime" where
  "runtime_of sp tbl =
     \<lparr>BeautifulSoup = (\<lambda>html. sp), json_loads = loads_table tbl, repr = (\<lambda>v. [])\<rparr>"

definition script_of :: "string \<Rightarrow> script" where
  "script_of s = \<lparr>script_string = Some s, script_get_text = s\<rparr>"

text \<open>The page of the repository's test \<^verbatim>\<open>test_missing_fields_are_handled_gracefully\<close>.\<close>

definition empty_page :: soup where
  "empty_page =
     \<lparr>find_all_script_ld_json = [], find_all_a_href = [], find_meta_description = None,
      find_meta_og_description = None, find_link_canonical = None, find_meta_og_url = None,
      get_text = ''No data Empty page'', find_all_script = []\<rparr>"

text \<open>
  A page whose only content is one \<^verbatim>\<open>application/ld+json\<close> script with the given payload.
\<close>

definition ld_page :: "string \<Rightarrow> soup" where
  "ld_page p =
     empty_page\<lparr>find_all_script_ld_json := [script_of p], find_all_script := [script_of p],
                get_text := []\<rparr>"

text \<open>An organisation whose \<^verbatim>\<open>employee\<close> is a list of persons, as schema.org allows.\<close>

definition employee_list_payload :: string where
  \<open>employee_list_payload = ''{"@type": "Organization", "employee": [{"name": "Ada"}]}''\<close>

definition employee_list_html :: string where
  \<open>employee_list_html =
     ''<html><head><script type="application/ld+json">'' @ employee_list_payload @
     ''</script></head><body></body></html>''\<close>

definition employee_list_ld :: json where
  "employee_list_ld =
     JDict [(''@type'', JStr ''Organization''),
            (''employee'', JList [JDict [(''name'', JStr ''Ada'')]])]"

text \<open>A block whose type is the list \<^verbatim>\<open>["Company"]\<close>, and the same block with the string.\<close>

definition company_list_payload :: string where
  \<open>company_list_payload = ''{"@type": ["Company"], "name": "Acme"}''\<close>

definition company_list_ld :: pydict where
  "company_list_ld = [(''@type'', JList [JStr ''Company'']), (''name'', JStr ''Acme'')]"

definition company_str_payload :: string where
  \<open>company_str_payload = ''{"@type": "Company", "name": "Acme"}''\<close>

definition company_str_ld :: pydict where
  "company_str_ld = [(''@type'', JStr ''Company''), (''name'', JStr ''Acme'')]"

text \<open>A page with two LinkedIn anchors and nothing else.\<close>

definition two_linkedin_page :: soup where
  "two_linkedin_page =
     empty_page\<lparr>find_all_a_href :=
                  [''https://www.linkedin.com/company/first'',
                   ''https://www.linkedin.com/company/second''],
                get_text := ''First Second''\<rparr>"

text \<open>Pages with nothing but visible text.\<close>

definition text_page :: "string \<Rightarrow> soup" where
  "text_page t = empty_page\<lparr>get_text := t\<rparr>"

text \<open>
  A page with two inline scripts. Both carry the round of 2020, the second also a round
  of 2021; the investor X stands in both, one investor has an empty name.
\<close>

definition rounds_payload_a :: string where
  \<open>rounds_payload_a =
     ''{"funding_rounds": [{"year": 2020, "round": "A"}], "investors": [{"name": "X"}, {"name": ""}]}''\<close>

definition rounds_json_a :: json where
  "rounds_json_a =
     JDict [(''funding_rounds'', JList [JDict [(''year'', JInt 2020), (''round'', JStr ''A'')]]),
            (''investors'', JList [JDict [(''name'', JStr ''X'')], JDict [(''name'', JStr [])]])]"

definition rounds_payload_b :: string where
  \<open>rounds_payload_b =
     ''{"data": {"funding_rounds": [{"date": 2020, "type": "A"}, {"year": 2021}], "investors": [{"name": "X", "type": "vc"}, {"name": "Y"}]}}''\<close>

definition rounds_json_b :: json where
  "rounds_json_b =
     JDict [(''data'',
        JDict [(''funding_rounds'',
                  JList [JDict [(''date'', JInt 2020), (''type'', JStr ''A'')],
                         JDict [(''year'', JInt 2021)]]),
               (''investors'',
                  JList [JDict [(''name'', JStr ''X''), (''type'', JStr ''vc'')],
                         JDict [(''name'', JStr ''Y'')]])])]"

definition funding_page :: soup where
  "funding_page =
     empty_page\<lparr>find_all_script := [script_of rounds_payload_a, script_of rounds_payload_b],
                get_text := []\<rparr>"

definition funding_runtime :: runtime where
  "funding_runtime =
     runtime_of funding_page [(rounds_payload_a, rounds_json_a), (rounds_payload_b, rounds_json_b)]"

text \<open>The normalised rounds and investors of that page.\<close>

definition round_2020 :: pydict where
  "round_2020 =
     [(''year'', JInt 2020), (''round'', JStr ''A''), (''amount'', JNull),
      (''currency'', JNull), (''investors'', JList [])]"

definition round_2021 :: pydict where
  "round_2021 =
     [(''year'', JInt 2021), (''round'', JNull), (''amount'', JNull),
      (''currency'', JNull), (''investors'', JList [])]"

definition investor_x :: pydict where
  "investor_x = [(''name'', JStr ''X''), (''type'', JNull), (''path'', JNull)]"

definition investor_unnamed :: pydict where
  "investor_unnamed = [(''name'', JStr []), (''type'', JNull), (''path'', JNull)]"

definition investor_x_vc :: pydict where
  "investor_x_vc = [(''name'', JStr ''X''), (''type'', JStr ''vc''), (''path'', JNull)]"

definition investor_y :: pydict where
  "investor_y = [(''name'', JStr ''Y''), (''type'', JNull), (''path'', JNull)]"

text \<open>The HTML of that page, and the mapping the extractor returns for it.\<close>

definition funding_html :: string where
  \<open>funding_html =
     ''<html><body><script>'' @ rounds_payload_a @ ''</script><script>'' @ rounds_payload_b @
     ''</script></body></html>''\<close>

definition funding_result :: pydict where
  "funding_result =
     [(''company_status'', JStr ''operational''),
      (''funding_rounds'', JList [JDict round_2020, JDict round_2021]),
      (''investors'', JList [JDict investor_x, JDict investor_y])]"

section \<open>Auxiliary notions\<close>

text \<open>
  What the harvesting passes do to a record, whatever the record: they append to
  \<open>funding_rounds\<close> and \<open>investors\<close>, or to \<open>hq_locations\<close>, and touch nothing else.
\<close>

definition adds_funding :: "(CompanyRecord \<Rightarrow> CompanyRecord) \<Rightarrow> bool" where
  "adds_funding f =
     (\<exists>fs ivs. \<forall>r. f r = r\<lparr>funding_rounds := funding_rounds r @ fs,
                              investors := investors r @ ivs\<rparr>)"

definition adds_locations :: "(CompanyRecord \<Rightarrow> CompanyRecord) \<Rightarrow> bool" where
  "adds_locations f = (\<exists>ls. \<forall>r. f r = r\<lparr>hq_locations := hq_locations r @ ls\<rparr>)"

text \<open>
  The value the keyword chain of the status classifier gives for a lower-cased text, and
  the stage of the first pair of \<open>stage_keywords\<close> whose keyword occurs in it.
\<close>

definition status_of :: "string \<Rightarrow> string" where
  "status_of t =
     (if substr ''closed'' t \<or> substr ''defunct'' t then ''closed''
      else if substr ''acquired'' t then ''acquired''
      else if substr ''ipo'' t then ''public''
      else ''operational'')"

definition stage_of :: "string \<Rightarrow> string option" where
  "stage_of t = map_option snd (find (\<lambda>ks. substr (fst ks) t) stage_keywords)"

text \<open>
  The priority list of the stage classifier in the order in which the specification
  words it; \<open>stage_keywords\<close> above is the list of the code.
\<close>

definition spec_stage_keywords :: "(string \<times> string) list" where
  "spec_stage_keywords =
     [(''pre-seed'', ''pre-seed''),
      (''seed'', ''seed''),
      (''series a'', ''early growth''),
      (''early stage'', ''early growth''),
      (''series b'', ''growth''),
      (''series c'', ''late growth''),
      (''series d'', ''late growth''),
      (''late stage'', ''late growth''),
      (''scaleup'', ''scaleup'')]"

text \<open>
  The entries of a list whose key has not been seen before, in their order: what a
  deduplicating loop keeps when no key fails to hash.
\<close>

fun first_by :: "('a \<Rightarrow> 'k) \<Rightarrow> 'a list \<Rightarrow> 'k set \<Rightarrow> 'a list" where
  "first_by key [] seen = []"
| "first_by key (x # xs) seen =
     (if key x \<in> seen then first_by key xs seen
      else x # first_by key xs (insert (key x) seen))"

text \<open>The name of an investor as the deduplication sees it.\<close>

definition has_name :: "pydict \<Rightarrow> bool" where
  "has_name investor = truthy (dict_get investor ''name'')"

definition name_key :: "pydict \<Rightarrow> hkey option" where
  "name_key investor = hash_key (dict_get investor ''name'')"

text \<open>
  A JSON value that is not null and not an empty list or dict, and that holds no such value
  at any depth; \<open>nothing_empty_values\<close> says it of every value of a mapping.
\<close>

fun nothing_empty :: "json \<Rightarrow> bool"
and nothing_empty_items :: "json list \<Rightarrow> bool"
and nothing_empty_values :: "pydict \<Rightarrow> bool" where
  "nothing_empty JNull = False"
| "nothing_empty (JList items) = (items \<noteq> [] \<and> nothing_empty_items items)"
| "nothing_empty (JDict d) = (d \<noteq> [] \<and> nothing_empty_values d)"
| "nothing_empty (JBool _) = True"
| "nothing_empty (JInt _) = True"
| "nothing_empty (JFloat _) = True"
| "nothing_empty (JStr _) = True"
| "nothing_empty_items [] = True"
| "nothing_empty_items (item # items) = (nothing_empty item \<and> nothing_empty_items items)"
| "nothing_empty_values [] = True"
| "nothing_empty_values (kv # kvs) = (nothing_empty (snd kv) \<and> nothing_empty_values kvs)"



section \<open>Properties\<close>

subsection \<open>Evaluating the examples\<close>

lemmas example_defs =
  loads_table_def runtime_of_def script_of_def empty_page_def ld_page_def payload_def

lemmas locator_defs =
  extract_ld_organization_def candidates_def is_org_def dict_get_def lower_def lower_char_def

subsection \<open>Strings and the returned mapping\<close>

lemma substr_iff_sublist: "substr k t = sublist k t"
  by (induction t) (auto simp: sublist_Cons_right)

lemma substr_lower: "substr k t \<Longrightarrow> substr (lower k) (lower t)"
  unfolding substr_iff_sublist lower_def by (rule map_mono_sublist)

lemma lower_closed: "lower ''closed'' = ''closed''"
  by (simp add: lower_def lower_char_def)

lemma cleaned_eq_filter:
  "cleaned d = filter (\<lambda>kv. snd kv \<noteq> JNull \<and> snd kv \<noteq> JList [] \<and> snd kv \<noteq> JDict []) d"
  by (induction d rule: cleaned.induct) auto

lemma to_dict_values:
  "(k, v) \<in> set (to_dict r) \<Longrightarrow> v \<noteq> JNull \<and> v \<noteq> JList [] \<and> v \<noteq> JDict []"
  by (simp add: to_dict_def cleaned_eq_filter)

lemma distinct_to_dict_data: "distinct (map fst (to_dict_data r))"
  by (simp add: to_dict_data_def)

lemma map_of_cleaned:
  assumes "distinct (map fst d)" and "map_of d k = Some v"
  shows "map_of (cleaned d) k = (if v = JNull \<or> v = JList [] \<or> v = JDict [] then None else Some v)"
  using assms
proof (induction d rule: cleaned.induct)
  case 1
  then show ?case by simp
next
  case (2 key w rest)
  show ?case
  proof (cases "k = key")
    case True
    then have "w = v" using "2.prems"(2) by simp
    moreover have "map_of (cleaned rest) key = None"
      using "2.prems"(1) by (auto simp: map_of_eq_None_iff cleaned_eq_filter)
    ultimately show ?thesis using True by simp
  next
    case False
    then show ?thesis using 2 by auto
  qed
qed

lemma distinct_to_dict: "distinct (map fst (to_dict r))"
  by (simp add: to_dict_def cleaned_eq_filter distinct_map_filter distinct_to_dict_data)

lemma to_dict_company_status:
  "map_of (to_dict r) ''company_status'' = map_option JStr (company_status r)"
proof -
  have "map_of (to_dict_data r) ''company_status'' = Some (opt_str (company_status r))"
    by (simp add: to_dict_data_def)
  then show ?thesis
    by (simp add: to_dict_def map_of_cleaned[OF distinct_to_dict_data] opt_str_def
        split: option.splits)
qed

lemma to_dict_growth_stage:
  "map_of (to_dict r) ''growth_stage'' = map_option JStr (growth_stage r)"
proof -
  have "map_of (to_dict_data r) ''growth_stage'' = Some (opt_str (growth_stage r))"
    by (simp add: to_dict_data_def)
  then show ?thesis
    by (simp add: to_dict_def map_of_cleaned[OF distinct_to_dict_data] opt_str_def
        split: option.splits)
qed

subsection \<open>The harvesting passes only append\<close>

lemma adds_funding_id: "adds_funding (\<lambda>r. r)"
  unfolding adds_funding_def by (intro exI[of _ "[]"]) simp

lemma adds_funding_comp:
  assumes "adds_funding f" and "adds_funding g"
  shows "adds_funding (\<lambda>r. g (f r))"
proof -
  obtain f1 i1 where f: "\<And>r. f r = r\<lparr>funding_rounds := funding_rounds r @ f1,
      investors := investors r @ i1\<rparr>"
    using assms(1) unfolding adds_funding_def by blast
  obtain f2 i2 where g: "\<And>r. g r = r\<lparr>funding_rounds := funding_rounds r @ f2,
      investors := investors r @ i2\<rparr>"
    using assms(2) unfolding adds_funding_def by blast
  show ?thesis
    unfolding adds_funding_def
    by (intro exI[of _ "f1 @ f2"] exI[of _ "i1 @ i2"]) (simp add: f g)
qed

lemma adds_funding_harvest_node: "adds_funding (harvest_node node)"
  unfolding adds_funding_def harvest_node_def by blast

lemma adds_funding_items:
  assumes "\<And>x. x \<in> set xs \<Longrightarrow> adds_funding (walk_for_funding_and_investors x)"
  shows "adds_funding (walk_funding_items xs)"
  using assms
proof (induction xs)
  case Nil
  have "walk_funding_items [] = (\<lambda>r. r)" by (rule ext) simp
  then show ?case by (simp add: adds_funding_id)
next
  case (Cons x xs)
  have "walk_funding_items (x # xs)
        = (\<lambda>r. walk_funding_items xs (walk_for_funding_and_investors x r))"
    by (rule ext) simp
  moreover have "adds_funding (walk_for_funding_and_investors x)"
    using Cons.prems by simp
  moreover have "adds_funding (walk_funding_items xs)"
    using Cons by simp
  ultimately show ?case by (simp add: adds_funding_comp)
qed

lemma adds_funding_values:
  assumes "\<And>kv. kv \<in> set kvs \<Longrightarrow> adds_funding (walk_for_funding_and_investors (snd kv))"
  shows "adds_funding (walk_funding_values kvs)"
  using assms
proof (induction kvs)
  case Nil
  have "walk_funding_values [] = (\<lambda>r. r)" by (rule ext) simp
  then show ?case by (simp add: adds_funding_id)
next
  case (Cons kv kvs)
  have "walk_funding_values (kv # kvs)
        = (\<lambda>r. walk_funding_values kvs (walk_for_funding_and_investors (snd kv) r))"
    by (rule ext) simp
  moreover have "adds_funding (walk_for_funding_and_investors (snd kv))"
    using Cons.prems by simp
  moreover have "adds_funding (walk_funding_values kvs)"
    using Cons by simp
  ultimately show ?case by (simp add: adds_funding_comp)
qed

lemma adds_funding_walk: "adds_funding (walk_for_funding_and_investors j)"
proof (induction j)
  case (JList xs)
  have "walk_for_funding_and_investors (JList xs) = walk_funding_items xs"
    by (rule ext) simp
  then show ?case using JList by (simp add: adds_funding_items)
next
  case (JDict node)
  have "walk_for_funding_and_investors (JDict node)
        = (\<lambda>r. walk_funding_values node (harvest_node node r))"
    by (rule ext) simp
  moreover have "adds_funding (walk_funding_values node)"
    using JDict by (intro adds_funding_values) (simp add: snds.intros)
  ultimately show ?case
    by (simp add: adds_funding_comp adds_funding_harvest_node)
qed (simp_all add: adds_funding_def, (intro exI[of _ "[]"], simp)+)

lemma adds_funding_scripts: "adds_funding (funding_scripts_loop rt ss)"
proof (induction ss)
  case Nil
  have "funding_scripts_loop rt [] = (\<lambda>r. r)" by (rule ext) simp
  then show ?case by (simp add: adds_funding_id)
next
  case (Cons s ss)
  show ?case
  proof (cases "payload s \<noteq> [] \<and> (substr ''funding'' (payload s) \<or> substr ''investor'' (payload s))
                \<and> (\<exists>data. json_loads rt (payload s) = Inr data)")
    case True
    then obtain data where d: "json_loads rt (payload s) = Inr data" by blast
    have "funding_scripts_loop rt (s # ss)
          = (\<lambda>r. funding_scripts_loop rt ss (walk_for_funding_and_investors data r))"
      using True d by (intro ext) auto
    then show ?thesis
      using Cons by (simp add: adds_funding_comp adds_funding_walk)
  next
    case False
    have "funding_scripts_loop rt (s # ss) = funding_scripts_loop rt ss"
      using False by (intro ext) (auto split: sum.splits)
    then show ?thesis using Cons by simp
  qed
qed

lemma adds_locations_id: "adds_locations (\<lambda>r. r)"
  unfolding adds_locations_def by (intro exI[of _ "[]"]) simp

lemma adds_locations_comp:
  assumes "adds_locations f" and "adds_locations g"
  shows "adds_locations (\<lambda>r. g (f r))"
proof -
  obtain l1 where f: "\<And>r. f r = r\<lparr>hq_locations := hq_locations r @ l1\<rparr>"
    using assms(1) unfolding adds_locations_def by blast
  obtain l2 where g: "\<And>r. g r = r\<lparr>hq_locations := hq_locations r @ l2\<rparr>"
    using assms(2) unfolding adds_locations_def by blast
  show ?thesis
    unfolding adds_locations_def by (intro exI[of _ "l1 @ l2"]) (simp add: f g)
qed

lemma adds_locations_node:
  "adds_locations (\<lambda>r. r\<lparr>hq_locations := hq_locations r @ location_of node\<rparr>)"
  unfolding adds_locations_def by blast

lemma adds_locations_items:
  assumes "\<And>x. x \<in> set xs \<Longrightarrow> adds_locations (walk_for_locations x)"
  shows "adds_locations (walk_location_items xs)"
  using assms
proof (induction xs)
  case Nil
  have "walk_location_items [] = (\<lambda>r. r)" by (rule ext) simp
  then show ?case by (simp add: adds_locations_id)
next
  case (Cons x xs)
  have "walk_location_items (x # xs) = (\<lambda>r. walk_location_items xs (walk_for_locations x r))"
    by (rule ext) simp
  moreover have "adds_locations (walk_for_locations x)"
    using Cons.prems by simp
  moreover have "adds_locations (walk_location_items xs)"
    using Cons by simp
  ultimately show ?case by (simp add: adds_locations_comp)
qed

lemma adds_locations_values:
  assumes "\<And>kv. kv \<in> set kvs \<Longrightarrow> adds_locations (walk_for_locations (snd kv))"
  shows "adds_locations (walk_location_values kvs)"
  using assms
proof (induction kvs)
  case Nil
  have "walk_location_values [] = (\<lambda>r. r)" by (rule ext) simp
  then show ?case by (simp add: adds_locations_id)
next
  case (Cons kv kvs)
  have "walk_location_values (kv # kvs)
        = (\<lambda>r. walk_location_values kvs (walk_for_locations (snd kv) r))"
    by (rule ext) simp
  moreover have "adds_locations (walk_for_locations (snd kv))"
    using Cons.prems by simp
  moreover have "adds_locations (walk_location_values kvs)"
    using Cons by simp
  ultimately show ?case by (simp add: adds_locations_comp)
qed

lemma adds_locations_walk: "adds_locations (walk_for_locations j)"
proof (induction j)
  case (JList xs)
  have "walk_for_locations (JList xs) = walk_location_items xs"
    by (rule ext) simp
  then show ?case using JList by (simp add: adds_locations_items)
next
  case (JDict node)
  have "walk_for_locations (JDict node)
        = (\<lambda>r. walk_location_values node (r\<lparr>hq_locations := hq_locations r @ location_of node\<rparr>))"
    by (rule ext) simp
  moreover have "adds_locations (walk_location_values node)"
    using JDict by (intro adds_locations_values) (simp add: snds.intros)
  ultimately show ?case
    using adds_locations_comp[OF adds_locations_node, of "walk_location_values node" node]
    by simp
qed (simp_all add: adds_locations_def, (intro exI[of _ "[]"], simp)+)

lemma adds_locations_scripts: "adds_locations (location_scripts_loop rt ss)"
proof (induction ss)
  case Nil
  have "location_scripts_loop rt [] = (\<lambda>r. r)" by (rule ext) simp
  then show ?case by (simp add: adds_locations_id)
next
  case (Cons s ss)
  show ?case
  proof (cases "payload s \<noteq> [] \<and> substr ''address'' (payload s)
                \<and> (\<exists>data. json_loads rt (payload s) = Inr data)")
    case True
    then obtain data where d: "json_loads rt (payload s) = Inr data" by blast
    have "location_scripts_loop rt (s # ss)
          = (\<lambda>r. location_scripts_loop rt ss (walk_for_locations data r))"
      using True d by (intro ext) auto
    then show ?thesis
      using Cons by (simp add: adds_locations_comp adds_locations_walk)
  next
    case False
    have "location_scripts_loop rt (s # ss) = location_scripts_loop rt ss"
      using False by (intro ext) (auto split: sum.splits)
    then show ?thesis using Cons by simp
  qed
qed

text \<open>What the two fallible passes return, in terms of the record they are given.\<close>

lemma populate_funding_frame:
  assumes "populate_funding_and_investors rt sp r = Inr r'"
  shows "\<exists>fs ivs. r' = r\<lparr>funding_rounds := fs, investors := ivs\<rparr>"
proof -
  obtain fs ivs where f: "\<And>x. funding_scripts_loop rt (find_all_script sp) x
      = x\<lparr>funding_rounds := funding_rounds x @ fs, investors := investors x @ ivs\<rparr>"
    using adds_funding_scripts[of rt "find_all_script sp"] unfolding adds_funding_def by blast
  show ?thesis
    using assms
    by (auto simp: populate_funding_and_investors_def and_then_def Let_def f split: sum.splits)
qed

lemma populate_locations_frame:
  assumes "populate_locations rt sp r = Inr r'"
  shows "\<exists>ls. r' = r\<lparr>hq_locations := ls\<rparr>"
proof -
  obtain ls where f: "\<And>x. location_scripts_loop rt (find_all_script sp) x
      = x\<lparr>hq_locations := hq_locations x @ ls\<rparr>"
    using adds_locations_scripts[of rt "find_all_script sp"] unfolding adds_locations_def by blast
  show ?thesis
    using assms
    by (auto simp: populate_locations_def and_then_def Let_def f split: sum.splits)
qed

subsection \<open>Fields the early passes leave alone\<close>

lemma setdefault_raw [simp]:
  "social_links (r\<lparr>raw_source_url := u\<rparr>) = social_links r"
  by simp

lemma assign_social_link_raw:
  "assign_social_link h (r\<lparr>raw_source_url := u\<rparr>) = (assign_social_link h r)\<lparr>raw_source_url := u\<rparr>"
  by (simp add: assign_social_link_def Let_def)

lemma assign_social_links_raw:
  "assign_social_links hs (r\<lparr>raw_source_url := u\<rparr>) = (assign_social_links hs r)\<lparr>raw_source_url := u\<rparr>"
  by (induction hs arbitrary: r) (simp_all add: assign_social_link_raw)

lemma assign_social_link_status:
  "company_status (assign_social_link h r) = company_status r
   \<and> growth_stage (assign_social_link h r) = growth_stage r"
  by (simp add: assign_social_link_def Let_def)

lemma assign_social_links_status:
  "company_status (assign_social_links hs r) = company_status r
   \<and> growth_stage (assign_social_links hs r) = growth_stage r"
  by (induction hs arbitrary: r) (simp_all add: assign_social_link_status)


lemma populate_meta_fallbacks_status:
  "company_status (populate_meta_fallbacks sp r) = company_status r
   \<and> growth_stage (populate_meta_fallbacks sp r) = growth_stage r"
  by (simp add: populate_meta_fallbacks_def Let_def split: option.splits)

subsection \<open>The status and stage pass in closed form\<close>

lemma stage_loop_find:
  "stage_loop ks t r =
     (case find (\<lambda>ks. substr (fst ks) t) ks of
        None \<Rightarrow> r
      | Some ks \<Rightarrow> r\<lparr>growth_stage := Some (snd ks)\<rparr>)"
  by (induction ks t r rule: stage_loop.induct) simp_all

lemma stage_loop_stage_of:
  assumes "growth_stage x = None"
  shows "stage_loop stage_keywords t x = x\<lparr>growth_stage := stage_of t\<rparr>"
  using assms by (simp add: stage_loop_find stage_of_def split: option.splits)

lemma status_chain:
  "(if substr ''closed'' t \<or> substr ''defunct'' t then x\<lparr>company_status := Some ''closed''\<rparr>
    else if substr ''acquired'' t then x\<lparr>company_status := Some ''acquired''\<rparr>
    else if substr ''ipo'' t then x\<lparr>company_status := Some ''public''\<rparr>
    else x\<lparr>company_status := Some ''operational''\<rparr>)
   = x\<lparr>company_status := Some (status_of t)\<rparr>"
  by (simp add: status_of_def)

lemma populate_status_and_stage_eq:
  "populate_status_and_stage sp r =
     r\<lparr>company_status :=
          (case company_status r of None \<Rightarrow> Some (status_of (lower (get_text sp))) | Some s \<Rightarrow> Some s),
        growth_stage :=
          (case growth_stage r of None \<Rightarrow> stage_of (lower (get_text sp)) | Some g \<Rightarrow> Some g)\<rparr>"
proof -
  have "populate_status_and_stage sp r =
     (let r1 = (if company_status r = None
                then r\<lparr>company_status := Some (status_of (lower (get_text sp)))\<rparr> else r)
      in if growth_stage r1 = None then stage_loop stage_keywords (lower (get_text sp)) r1 else r1)"
    unfolding populate_status_and_stage_def Let_def status_chain ..
  then show ?thesis
    by (cases "company_status r"; cases "growth_stage r")
       (simp_all add: stage_loop_stage_of)
qed

subsection \<open>Status and stage of the returned mapping\<close>

lemma set_employees_status:
  "set_employees v r = Inr r' \<Longrightarrow>
   company_status r' = company_status r \<and> growth_stage r' = growth_stage r"
  by (cases v) (auto simp: set_employees_def and_then_def split: sum.splits)

lemma populate_from_ld_json_status:
  assumes "populate_from_ld_json rt ld r = Inr r'"
  shows "company_status r' = company_status r \<and> growth_stage r' = growth_stage r"
proof -
  define r3 where "r3 =
    (let r1 = r\<lparr>about := py_or (dict_get ld ''description'') (about r)\<rparr>;
         r2 = (case ld_url ld of JStr s \<Rightarrow> r1\<lparr>website_url := Some s\<rparr> | _ \<Rightarrow> r1)
     in if ld_industries rt ld \<noteq> []
        then r2\<lparr>industries := sort (remdups (industries r2 @ ld_industries rt ld))\<rparr>
        else r2)"
  have f: "populate_from_ld_json rt ld r =
      and_then (ld_employees ld) (\<lambda>v. and_then (set_employees v r3)
        (\<lambda>r4. Inr (assign_social_links (ld_same_as rt ld) r4)))"
    unfolding populate_from_ld_json_def r3_def Let_def ..
  have r3s: "company_status r3 = company_status r \<and> growth_stage r3 = growth_stage r"
    unfolding r3_def Let_def by (cases "ld_url ld") simp_all
  from assms obtain v r4 where e: "set_employees v r3 = Inr r4"
    and r': "r' = assign_social_links (ld_same_as rt ld) r4"
    unfolding f by (auto simp: and_then_def split: sum.splits)
  show ?thesis
    using set_employees_status[OF e] r3s by (simp add: r' assign_social_links_status)
qed

lemma run_passes_fields:
  assumes "run_passes rt sp ld_org r0 = Inr d"
  shows "\<exists>r. d = to_dict r
     \<and> company_status r =
         (case company_status r0 of None \<Rightarrow> Some (status_of (lower (get_text sp))) | Some s \<Rightarrow> Some s)
     \<and> growth_stage r =
         (case growth_stage r0 of None \<Rightarrow> stage_of (lower (get_text sp)) | Some g \<Rightarrow> Some g)"
proof -
  from assms obtain r1 r2 r3 where
    1: "(case ld_org of None \<Rightarrow> Inr r0
         | Some ld \<Rightarrow> if ld \<noteq> [] then populate_from_ld_json rt ld r0 else Inr r0) = Inr r1"
    and 2: "populate_funding_and_investors rt sp
              (populate_status_and_stage sp
                 (populate_meta_fallbacks sp (populate_social_links sp r1))) = Inr r2"
    and 3: "populate_locations rt sp r2 = Inr r3"
    and d: "d = to_dict r3"
    unfolding run_passes_def and_then_def by (auto split: sum.splits)
  have a: "company_status r1 = company_status r0 \<and> growth_stage r1 = growth_stage r0"
    using 1 populate_from_ld_json_status[of rt _ r0 r1]
    by (cases ld_org) (auto split: if_splits)
  define r1' where "r1' = populate_meta_fallbacks sp (populate_social_links sp r1)"
  have b: "company_status r1' = company_status r0 \<and> growth_stage r1' = growth_stage r0"
    unfolding r1'_def using a
    by (simp add: populate_meta_fallbacks_status populate_social_links_def
        assign_social_links_status)
  obtain fs ivs where r2: "r2 = (populate_status_and_stage sp r1')\<lparr>funding_rounds := fs, investors := ivs\<rparr>"
    using populate_funding_frame[OF 2[folded r1'_def]] by blast
  obtain ls where r3: "r3 = r2\<lparr>hq_locations := ls\<rparr>"
    using populate_locations_frame[OF 3] by blast
  have "company_status r3 = company_status (populate_status_and_stage sp r1')
      \<and> growth_stage r3 = growth_stage (populate_status_and_stage sp r1')"
    by (simp add: r2 r3)
  then show ?thesis
    using b d by (intro exI[of _ r3]) (simp add: populate_status_and_stage_eq)
qed

lemma extract_company_data_Inr:
  assumes "fst (extract_company_data rt lg html url) = Inr d"
  shows "\<exists>ld_org. run_passes rt (BeautifulSoup rt html) ld_org (new_CompanyRecord url) = Inr d"
  using assms unfolding extract_company_data_def Let_def and_then_def
  by (auto split: sum.splits)

lemma new_CompanyRecord_fields [simp]:
  "company_status (new_CompanyRecord url) = None"
  "growth_stage (new_CompanyRecord url) = None"
  by (simp_all add: new_CompanyRecord_def)

lemma extract_text_page:
  "fst (extract_company_data (runtime_of (text_page t) []) lg html url)
   = Inr (to_dict ((new_CompanyRecord url)
       \<lparr>company_status := Some (status_of (lower t)), growth_stage := stage_of (lower t)\<rparr>))"
proof -
  have sp: "BeautifulSoup (runtime_of (text_page t) []) html = text_page t"
    by (simp add: runtime_of_def)
  have ld: "extract_ld_organization (runtime_of (text_page t) []) (text_page t) lg = (Inr None, lg)"
    by (simp add: extract_ld_organization_def text_page_def empty_page_def)
  have s: "populate_social_links (text_page t) (new_CompanyRecord url) = new_CompanyRecord url"
    by (simp add: populate_social_links_def text_page_def empty_page_def)
  have m: "populate_meta_fallbacks (text_page t) (new_CompanyRecord url) = new_CompanyRecord url"
    by (simp add: populate_meta_fallbacks_def text_page_def empty_page_def attr_def
        new_CompanyRecord_def)
  define r where "r = (new_CompanyRecord url)
       \<lparr>company_status := Some (status_of (lower t)), growth_stage := stage_of (lower t)\<rparr>"
  have st: "populate_status_and_stage (text_page t) (new_CompanyRecord url) = r"
    by (simp add: populate_status_and_stage_eq r_def) (simp add: text_page_def)
  have lists: "funding_rounds r = []" "investors r = []" "hq_locations r = []"
    by (simp_all add: r_def new_CompanyRecord_def)
  have f: "populate_funding_and_investors (runtime_of (text_page t) []) (text_page t) r = Inr r"
    by (simp add: populate_funding_and_investors_def and_then_def lists)
       (simp add: text_page_def empty_page_def lists)
  have l: "populate_locations (runtime_of (text_page t) []) (text_page t) r = Inr r"
    by (simp add: populate_locations_def and_then_def lists)
       (simp add: text_page_def empty_page_def lists)
  show ?thesis
    unfolding extract_company_data_def Let_def sp ld
    by (simp add: run_passes_def and_then_def s m st f l) (simp add: r_def)
qed

subsection \<open>Deduplication keeps first occurrences\<close>

lemma first_by_keys: "key ` set (first_by key xs seen) = key ` set xs - seen"
  by (induction xs arbitrary: seen) auto

lemma first_by_subseq: "subseq (first_by key xs seen) xs"
  by (induction xs arbitrary: seen) auto

lemma first_by_distinct: "distinct (map key (first_by key xs seen))"
proof (induction xs arbitrary: seen)
  case Nil
  then show ?case by simp
next
  case (Cons x xs)
  have "key x \<notin> key ` set (first_by key xs (insert (key x) seen))"
    by (simp add: first_by_keys)
  then show ?case using Cons by simp
qed

lemma first_by_first:
  "x \<in> set (first_by key xs seen) \<Longrightarrow> find (\<lambda>y. key y = key x) xs = Some x"
proof (induction xs arbitrary: seen)
  case Nil
  then show ?case by simp
next
  case (Cons a xs)
  show ?case
  proof (cases "key a \<in> seen")
    case True
    then have m: "x \<in> set (first_by key xs seen)" using Cons.prems by simp
    then have "key x \<in> key ` set xs - seen" using first_by_keys[of key xs seen] by blast
    then have "key a \<noteq> key x" using True by auto
    then show ?thesis using Cons.IH[OF m] by simp
  next
    case False
    show ?thesis
    proof (cases "x = a")
      case True
      then show ?thesis by simp
    next
      case False
      then have m: "x \<in> set (first_by key xs (insert (key a) seen))"
        using Cons.prems \<open>key a \<notin> seen\<close> by simp
      then have "key x \<in> key ` set xs - insert (key a) seen"
        using first_by_keys[of key xs "insert (key a) seen"] by blast
      then have "key a \<noteq> key x" by auto
      then show ?thesis using Cons.IH[OF m] by simp
    qed
  qed
qed

lemma distinct_key_once:
  "distinct (map key ys) \<Longrightarrow> y \<in> set ys \<Longrightarrow> length (filter (\<lambda>x. key x = key y) ys) = 1"
proof (induction ys)
  case Nil
  then show ?case by simp
next
  case (Cons a ys)
  show ?case
  proof (cases "key a = key y")
    case True
    have "key a \<notin> key ` set ys"
      using Cons.prems(1) by simp
    then have "key x \<noteq> key y" if "x \<in> set ys" for x
      using that True by (metis imageI)
    then have "filter (\<lambda>x. key x = key y) ys = []"
      by (simp add: filter_empty_conv)
    then show ?thesis using True by simp
  next
    case False
    then show ?thesis using Cons by auto
  qed
qed

lemma unique_rounds_loop_first_by:
  "unique_rounds_loop frs seen uniq = Inr out \<Longrightarrow>
   out = uniq @ first_by round_key frs (Some ` seen)"
proof (induction frs arbitrary: seen uniq)
  case Nil
  then show ?case by simp
next
  case (Cons fr frs)
  then obtain k where k: "round_key fr = Some k"
    by (cases "round_key fr") auto
  show ?case
  proof (cases "k \<in> seen")
    case True
    then show ?thesis using Cons k by (auto simp: image_iff)
  next
    case False
    then have "unique_rounds_loop frs (insert k seen) (uniq @ [fr]) = Inr out"
      using Cons.prems k by simp
    from Cons.IH[OF this] show ?thesis using False k by (auto simp: image_iff)
  qed
qed

lemma unique_investors_loop_first_by:
  "unique_investors_loop invs seen uniq = Inr out \<Longrightarrow>
   out = uniq @ first_by name_key (filter has_name invs) (Some ` seen)"
proof (induction invs arbitrary: seen uniq)
  case Nil
  then show ?case by simp
next
  case (Cons i invs)
  show ?case
  proof (cases "has_name i")
    case False
    then show ?thesis using Cons by (simp add: has_name_def)
  next
    case True
    then obtain k where k: "name_key i = Some k"
      using Cons.prems by (cases "name_key i") (auto simp: has_name_def name_key_def)
    show ?thesis
    proof (cases "k \<in> seen")
      case True
      then show ?thesis
        using Cons k \<open>has_name i\<close> by (auto simp: image_iff has_name_def name_key_def)
    next
      case False
      then have "unique_investors_loop invs (insert k seen) (uniq @ [i]) = Inr out"
        using Cons.prems k \<open>has_name i\<close> by (simp add: has_name_def name_key_def)
      from Cons.IH[OF this] show ?thesis
        using False k \<open>has_name i\<close> by (auto simp: image_iff)
    qed
  qed
qed


lemma subseq_mem: "subseq xs ys \<Longrightarrow> x \<in> set xs \<Longrightarrow> x \<in> set ys"
  by (induction rule: list_emb.induct) auto

lemma find_in_filter:
  "find P (filter Q xs) = find (\<lambda>x. Q x \<and> P x) xs"
  by (induction xs) auto

lemma populate_funding_lists:
  assumes "populate_funding_and_investors rt sp record = Inr r'"
  shows "funding_rounds r' =
           first_by round_key
             (funding_rounds (funding_scripts_loop rt (find_all_script sp) record)) {}
       \<and> investors r' =
           first_by name_key
             (filter has_name (investors (funding_scripts_loop rt (find_all_script sp) record))) {}"
proof -
  define r1 where "r1 = funding_scripts_loop rt (find_all_script sp) record"
  from assms obtain ur ui where
    1: "unique_rounds_loop (funding_rounds r1) {} [] = Inr ur"
    and 2: "unique_investors_loop (investors r1) {} [] = Inr ui"
    and r': "r' = r1\<lparr>funding_rounds := ur, investors := ui\<rparr>"
    unfolding populate_funding_and_investors_def Let_def and_then_def r1_def
    by (auto split: sum.splits)
  show ?thesis
    using unique_rounds_loop_first_by[OF 1] unique_investors_loop_first_by[OF 2]
    by (simp add: r' r1_def)
qed


subsection \<open>The example page with two funding scripts\<close>

lemma walk_rounds_json_a:
  "walk_for_funding_and_investors rounds_json_a r =
     r\<lparr>funding_rounds := funding_rounds r @ [round_2020],
       investors := investors r @ [investor_x, investor_unnamed]\<rparr>"
  by (simp add: rounds_json_a_def harvest_node_def dict_entries_def clean_round_def
      clean_investor_def dict_get_def py_or_def round_2020_def investor_x_def
      investor_unnamed_def)

lemma walk_rounds_json_b:
  "walk_for_funding_and_investors rounds_json_b r =
     r\<lparr>funding_rounds := funding_rounds r @ [round_2020, round_2021],
       investors := investors r @ [investor_x_vc, investor_y]\<rparr>"
  by (simp add: rounds_json_b_def harvest_node_def dict_entries_def clean_round_def
      clean_investor_def dict_get_def py_or_def round_2020_def round_2021_def
      investor_x_vc_def investor_y_def)

lemma funding_page_harvest:
  "funding_scripts_loop funding_runtime (find_all_script funding_page) r =
     r\<lparr>funding_rounds := funding_rounds r @ [round_2020, round_2020, round_2021],
       investors := investors r @ [investor_x, investor_unnamed, investor_x_vc, investor_y]\<rparr>"
proof -
  have pa: "payload (script_of rounds_payload_a) = rounds_payload_a"
    by (simp add: payload_def script_of_def rounds_payload_a_def)
  have pb: "payload (script_of rounds_payload_b) = rounds_payload_b"
    by (simp add: payload_def script_of_def rounds_payload_b_def)
  have na: "rounds_payload_a \<noteq> []" by (simp add: rounds_payload_a_def)
  have nb: "rounds_payload_b \<noteq> []" by (simp add: rounds_payload_b_def)
  have fa: "substr ''funding'' rounds_payload_a" by (simp add: rounds_payload_a_def)
  have fb: "substr ''funding'' rounds_payload_b" by (simp add: rounds_payload_b_def)
  have la: "json_loads funding_runtime rounds_payload_a = Inr rounds_json_a"
    by (simp add: funding_runtime_def runtime_of_def loads_table_def)
  have ne: "rounds_payload_b \<noteq> rounds_payload_a"
    by (simp add: rounds_payload_a_def rounds_payload_b_def)
  have lb: "json_loads funding_runtime rounds_payload_b = Inr rounds_json_b"
    using ne by (simp add: funding_runtime_def runtime_of_def loads_table_def)
  have fs: "find_all_script funding_page = [script_of rounds_payload_a, script_of rounds_payload_b]"
    by (simp add: funding_page_def)
  show ?thesis
    unfolding fs
    by (simp add: pa pb na nb fa fb la lb walk_rounds_json_a walk_rounds_json_b)
qed

lemma round_keys:
  "round_key round_2020 = Some (HNum (Finite 2020), HStr ''A'', HNone, HNone)"
  "round_key round_2021 = Some (HNum (Finite 2021), HNone, HNone, HNone)"
  by (simp_all add: round_key_def round_2020_def round_2021_def dict_get_def)

lemma investor_names:
  "has_name investor_x" "name_key investor_x = Some (HStr ''X'')"
  "\<not> has_name investor_unnamed"
  "has_name investor_x_vc" "name_key investor_x_vc = Some (HStr ''X'')"
  "has_name investor_y" "name_key investor_y = Some (HStr ''Y'')"
  by (simp_all add: has_name_def name_key_def dict_get_def investor_x_def
      investor_unnamed_def investor_x_vc_def investor_y_def)

lemma funding_page_populate:
  "populate_funding_and_investors funding_runtime funding_page (new_CompanyRecord url)
   = Inr ((new_CompanyRecord url)
       \<lparr>funding_rounds := [round_2020, round_2021], investors := [investor_x, investor_y]\<rparr>)"
proof -
  have 1: "unique_rounds_loop [round_2020, round_2020, round_2021] {} []
           = Inr [round_2020, round_2021]"
    by (simp add: round_keys)
  have 2: "unique_investors_loop [investor_x, investor_unnamed, investor_x_vc, investor_y] {} []
           = Inr [investor_x, investor_y]"
    using investor_names by (simp add: has_name_def name_key_def)
  show ?thesis
    unfolding populate_funding_and_investors_def Let_def funding_page_harvest
    by (simp add: new_CompanyRecord_def and_then_def 1 2
        del: unique_rounds_loop.simps unique_investors_loop.simps)
qed

lemma funding_page_locations:
  "location_scripts_loop funding_runtime (find_all_script funding_page) r = r"
proof -
  have pa: "payload (script_of rounds_payload_a) = rounds_payload_a"
    by (simp add: payload_def script_of_def rounds_payload_a_def)
  have pb: "payload (script_of rounds_payload_b) = rounds_payload_b"
    by (simp add: payload_def script_of_def rounds_payload_b_def)
  have fa: "\<not> substr ''address'' rounds_payload_a" by (simp add: rounds_payload_a_def)
  have fb: "\<not> substr ''address'' rounds_payload_b" by (simp add: rounds_payload_b_def)
  have fs: "find_all_script funding_page = [script_of rounds_payload_a, script_of rounds_payload_b]"
    by (simp add: funding_page_def)
  show ?thesis unfolding fs by (simp add: pa pb fa fb)
qed

lemma extract_funding_page:
  "fst (extract_company_data funding_runtime lg html None) = Inr funding_result"
proof -
  have sp: "BeautifulSoup funding_runtime html = funding_page"
    by (simp add: funding_runtime_def runtime_of_def)
  have ld: "extract_ld_organization funding_runtime funding_page lg = (Inr None, lg)"
    by (simp add: extract_ld_organization_def funding_page_def empty_page_def)
  have s: "populate_social_links funding_page (new_CompanyRecord None) = new_CompanyRecord None"
    by (simp add: populate_social_links_def funding_page_def empty_page_def)
  have m: "populate_meta_fallbacks funding_page (new_CompanyRecord None) = new_CompanyRecord None"
    by (simp add: populate_meta_fallbacks_def funding_page_def empty_page_def attr_def
        new_CompanyRecord_def)
  have t: "get_text funding_page = []" by (simp add: funding_page_def)
  have so: "status_of [] = ''operational''" by (simp add: status_of_def)
  have sg: "stage_of [] = None" by (simp add: stage_of_def stage_keywords_def)
  define r where "r = (new_CompanyRecord None)\<lparr>company_status := Some ''operational''\<rparr>"
  have st: "populate_status_and_stage funding_page (new_CompanyRecord None) = r"
    by (simp add: populate_status_and_stage_eq t so sg lower_def r_def)
  have nr: "funding_rounds r = []" "investors r = []" "hq_locations r = []"
    by (simp_all add: r_def new_CompanyRecord_def)
  define r2 where "r2 = r\<lparr>funding_rounds := [round_2020, round_2021],
                             investors := [investor_x, investor_y]\<rparr>"
  have 1: "unique_rounds_loop [round_2020, round_2020, round_2021] {} []
           = Inr [round_2020, round_2021]"
    by (simp add: round_keys)
  have 2: "unique_investors_loop [investor_x, investor_unnamed, investor_x_vc, investor_y] {} []
           = Inr [investor_x, investor_y]"
    using investor_names by (simp add: has_name_def name_key_def)
  have f: "populate_funding_and_investors funding_runtime funding_page r = Inr r2"
    unfolding populate_funding_and_investors_def Let_def funding_page_harvest
    by (simp add: nr and_then_def 1 2 r2_def
        del: unique_rounds_loop.simps unique_investors_loop.simps)
  have l: "populate_locations funding_runtime funding_page r2 = Inr r2"
    unfolding populate_locations_def Let_def funding_page_locations
    by (simp add: and_then_def r2_def nr)
  have d: "to_dict r2 = funding_result"
    by (simp add: to_dict_def to_dict_data_def r2_def r_def new_CompanyRecord_def opt_str_def
        dict_list_def funding_result_def)
  show ?thesis
    unfolding extract_company_data_def Let_def sp ld
    by (simp add: run_passes_def and_then_def s m st f l d)
qed

subsection \<open>No pass reads or writes the source URL\<close>















subsection \<open>The entry point can raise\<close>

text \<open>
  Claim C1. The extractor is meant never to raise. It does on a structured-metadata block
  of an organisation whose \<^verbatim>\<open>employee\<close> is a list: with no \<^verbatim>\<open>numberOfEmployees\<close>, the code
  calls \<^verbatim>\<open>.get("count")\<close> on the list, and the \<^verbatim>\<open>AttributeError\<close> leaves
  \<^verbatim>\<open>extract_company_data\<close>.
\<close>

theorem extract_company_data_raises_on_employee_list:
  "fst (extract_company_data
          (runtime_of (ld_page employee_list_payload) [(employee_list_payload, employee_list_ld)])
          lg employee_list_html (Some ''https://app.dealroom.co/companies/acme''))
   = Inl AttributeError"
  by (simp add: example_defs locator_defs extract_company_data_def run_passes_def and_then_def
      employee_list_payload_def employee_list_ld_def populate_from_ld_json_def ld_employees_def)

subsection \<open>The structured-metadata locator\<close>

text \<open>
  Claim C2. A block is to be accepted when its type is, whatever the case of the letters,
  Organization, Corp, Corporation or Company, as a string or as an entry of a list. The
  code accepts the string \<^verbatim>\<open>"Company"\<close> and does not accept the list \<^verbatim>\<open>["Company"]\<close>:
  the tuple of the list branch lacks \<^verbatim>\<open>"company"\<close>.
\<close>

theorem company_type_list_not_accepted:
  "extract_ld_organization
     (runtime_of (ld_page company_list_payload) [(company_list_payload, JDict company_list_ld)])
     (ld_page company_list_payload) lg
   = (Inr None, lg)
   \<and> extract_ld_organization
       (runtime_of (ld_page company_str_payload) [(company_str_payload, JDict company_str_ld)])
       (ld_page company_str_payload) lg
     = (Inr (Some company_str_ld), lg @ [''Found Organization JSON-LD block''])"
  by (simp add: example_defs locator_defs company_list_payload_def company_list_ld_def
      company_str_payload_def company_str_ld_def)

subsection \<open>The social-link classifier\<close>

text \<open>
  Claim C4. The singular fields are to hold the first matching link, as the entry of
  \<open>social_links\<close> does. On a page with two LinkedIn anchors the anchor pass leaves the
  first one in \<open>social_links\<close> and the second one in \<open>linkedin_url\<close>: the singular field
  is assigned on every match.
\<close>

theorem linkedin_url_is_last_match:
  "populate_social_links two_linkedin_page (new_CompanyRecord None)
   = (new_CompanyRecord None)
       \<lparr>social_links := [(''linkedin'', ''https://www.linkedin.com/company/first'')],
        linkedin_url := Some ''https://www.linkedin.com/company/second''\<rparr>"
  by (simp add: populate_social_links_def two_linkedin_page_def empty_page_def
      assign_social_link_def lower_def lower_char_def setdefault_def new_CompanyRecord_def Let_def)

subsection \<open>The status classifier\<close>

text \<open>
  Claim C9. Status keywords are matched as substrings of the lower-cased visible text, not
  as words: whenever the lower-cased visible text contains the characters \<^verbatim>\<open>closed\<close>
  anywhere (inside \<^verbatim>\<open>UNDISCLOSED\<close>, say), the mapping that \<^verbatim>\<open>extract_company_data\<close>
  returns has \<open>company_status\<close> equal to \<^verbatim>\<open>closed\<close>.
\<close>

theorem status_closed_by_substring:
  assumes "substr ''closed'' (lower (get_text (BeautifulSoup rt html)))"
    and "fst (extract_company_data rt lg html source_url) = Inr d"
  shows "map_of d ''company_status'' = Some (JStr ''closed'')"
proof -
  obtain ld_org where
    "run_passes rt (BeautifulSoup rt html) ld_org (new_CompanyRecord source_url) = Inr d"
    using extract_company_data_Inr[OF assms(2)] by blast
  then obtain r where d: "d = to_dict r"
    and r: "company_status r = Some (status_of (lower (get_text (BeautifulSoup rt html))))"
    using run_passes_fields by fastforce
  have "status_of (lower (get_text (BeautifulSoup rt html))) = ''closed''"
    using assms(1) by (simp add: status_of_def)
  then show ?thesis
    by (simp add: d r to_dict_company_status)
qed

theorem status_closed_by_substring_witness:
  "substr ''closed'' (lower (get_text (BeautifulSoup
       (runtime_of (text_page ''Round size UNDISCLOSED'') [])
       ''<html><body><p>Round size UNDISCLOSED</p></body></html>'')))
   \<and> fst (extract_company_data (runtime_of (text_page ''Round size UNDISCLOSED'') []) []
         ''<html><body><p>Round size UNDISCLOSED</p></body></html>'' None)
       = Inr [(''company_status'', JStr ''closed'')]
   \<and> map_of [(''company_status'', JStr ''closed'')] ''company_status'' = Some (JStr ''closed'')"
proof -
  have h1: "substr ''closed'' (lower (get_text (BeautifulSoup
       (runtime_of (text_page ''Round size UNDISCLOSED'') [])
       ''<html><body><p>Round size UNDISCLOSED</p></body></html>'')))"
    by (simp add: runtime_of_def text_page_def lower_def lower_char_def)
  have s: "status_of (lower ''Round size UNDISCLOSED'') = ''closed''"
    by (simp add: status_of_def lower_def lower_char_def)
  have g: "stage_of (lower ''Round size UNDISCLOSED'') = None"
    by (simp add: stage_of_def stage_keywords_def lower_def lower_char_def)
  have h2: "fst (extract_company_data (runtime_of (text_page ''Round size UNDISCLOSED'') []) []
         ''<html><body><p>Round size UNDISCLOSED</p></body></html>'' None)
       = Inr [(''company_status'', JStr ''closed'')]"
    unfolding extract_text_page s g
    by (simp add: to_dict_def to_dict_data_def opt_str_def dict_list_def new_CompanyRecord_def)
  show ?thesis
    using h1 h2 status_closed_by_substring[OF h1 h2] by simp
qed

subsection \<open>The growth-stage classifier\<close>

text \<open>
  The page \<^verbatim>\<open>Early stage, Series B\<close>: the code's list reaches \<^verbatim>\<open>series b\<close> first and
  answers \<^verbatim>\<open>growth\<close>; the list in the order of claim C3 reaches \<^verbatim>\<open>early stage\<close> first
  and would answer \<^verbatim>\<open>early growth\<close>.
\<close>

theorem stage_order_counterexample:
  "fst (extract_company_data (runtime_of (text_page ''Early stage, Series B'') []) []
         ''<html><body><p>Early stage, Series B</p></body></html>'' None)
     = Inr [(''company_status'', JStr ''operational''), (''growth_stage'', JStr ''growth'')]
   \<and> growth_stage (stage_loop spec_stage_keywords (lower ''Early stage, Series B'')
         (new_CompanyRecord None)) = Some ''early growth''"
proof -
  have s: "status_of (lower ''Early stage, Series B'') = ''operational''"
    by (simp add: status_of_def lower_def lower_char_def)
  have g: "stage_of (lower ''Early stage, Series B'') = Some ''growth''"
    by (simp add: stage_of_def stage_keywords_def lower_def lower_char_def)
  have 1: "fst (extract_company_data (runtime_of (text_page ''Early stage, Series B'') []) []
         ''<html><body><p>Early stage, Series B</p></body></html>'' None)
     = Inr [(''company_status'', JStr ''operational''), (''growth_stage'', JStr ''growth'')]"
    unfolding extract_text_page s g
    by (simp add: to_dict_def to_dict_data_def opt_str_def dict_list_def new_CompanyRecord_def)
  have 2: "growth_stage (stage_loop spec_stage_keywords (lower ''Early stage, Series B'')
         (new_CompanyRecord None)) = Some ''early growth''"
    by (simp add: spec_stage_keywords_def lower_def lower_char_def)
  show ?thesis using 1 2 by simp
qed

text \<open>
  Claim C3, as amended. The growth stage of the returned mapping is the stage of the first
  pair, in the order seed, series a, series b, series c, series d, early stage, late
  stage, scaleup, whose keyword occurs in the lower-cased visible text, and the key is
  absent when none occurs. This is stated for the texts that do not contain
  \<^verbatim>\<open>pre-seed\<close>.
\<close>

theorem growth_stage_first_match:
  assumes "\<not> substr ''pre-seed'' (lower (get_text (BeautifulSoup rt html)))"
    and "fst (extract_company_data rt lg html source_url) = Inr d"
  shows "map_of d ''growth_stage'' =
     map_option (\<lambda>ks. JStr (snd ks))
       (find (\<lambda>ks. substr (fst ks) (lower (get_text (BeautifulSoup rt html))))
          [(''seed'', ''seed''),
           (''series a'', ''early growth''),
           (''series b'', ''growth''),
           (''series c'', ''late growth''),
           (''series d'', ''late growth''),
           (''early stage'', ''early growth''),
           (''late stage'', ''late growth''),
           (''scaleup'', ''scaleup'')])"
proof -
  obtain ld_org where
    "run_passes rt (BeautifulSoup rt html) ld_org (new_CompanyRecord source_url) = Inr d"
    using extract_company_data_Inr[OF assms(2)] by blast
  then obtain r where d: "d = to_dict r"
    and r: "growth_stage r = stage_of (lower (get_text (BeautifulSoup rt html)))"
    using run_passes_fields by fastforce
  show ?thesis
    using assms(1)
    by (simp add: d r to_dict_growth_stage stage_of_def stage_keywords_def)
qed

theorem growth_stage_first_match_witness:
  "\<not> substr ''pre-seed'' (lower (get_text (BeautifulSoup
        (runtime_of (text_page ''Series C after a late stage round'') [])
        ''<html><body><p>Series C after a late stage round</p></body></html>'')))
   \<and> fst (extract_company_data (runtime_of (text_page ''Series C after a late stage round'') [])
         [] ''<html><body><p>Series C after a late stage round</p></body></html>'' None)
       = Inr [(''company_status'', JStr ''operational''), (''growth_stage'', JStr ''late growth'')]
   \<and> map_of [(''company_status'', JStr ''operational''), (''growth_stage'', JStr ''late growth'')]
         ''growth_stage'' = Some (JStr ''late growth'')"
proof -
  have h1: "\<not> substr ''pre-seed'' (lower (get_text (BeautifulSoup
        (runtime_of (text_page ''Series C after a late stage round'') [])
        ''<html><body><p>Series C after a late stage round</p></body></html>'')))"
    by (simp add: runtime_of_def text_page_def lower_def lower_char_def)
  have s: "status_of (lower ''Series C after a late stage round'') = ''operational''"
    by (simp add: status_of_def lower_def lower_char_def)
  have g: "stage_of (lower ''Series C after a late stage round'') = Some ''late growth''"
    by (simp add: stage_of_def stage_keywords_def lower_def lower_char_def)
  have h2: "fst (extract_company_data (runtime_of (text_page ''Series C after a late stage round'') [])
         [] ''<html><body><p>Series C after a late stage round</p></body></html>'' None)
       = Inr [(''company_status'', JStr ''operational''), (''growth_stage'', JStr ''late growth'')]"
    unfolding extract_text_page s g
    by (simp add: to_dict_def to_dict_data_def opt_str_def dict_list_def new_CompanyRecord_def)
  show ?thesis
    using h1 h2 growth_stage_first_match[OF h1 h2] by simp
qed

subsection \<open>Funding rounds\<close>



subsection \<open>Investors\<close>

text \<open>
  Claim C7. When the funding pass returns, \<open>investors\<close> is the harvested list with the
  entries whose name is missing or empty dropped and the rest deduplicated by name, the
  first occurrence winning: the kept entries stand in their harvested order, each has a
  name, no two have the same name, every harvested name is kept once, and the kept entry
  of a name is the first harvested entry with that name.
\<close>

theorem investors_deduplicated:
  assumes "populate_funding_and_investors rt sp record = Inr r'"
    and "harvested = investors (funding_scripts_loop rt (find_all_script sp) record)"
  shows "subseq (investors r') harvested
     \<and> (\<forall>i\<in>set (investors r'). has_name i)
     \<and> distinct (map name_key (investors r'))
     \<and> (\<forall>i\<in>set harvested. has_name i \<longrightarrow>
           length (filter (\<lambda>x. name_key x = name_key i) (investors r')) = 1)
     \<and> (\<forall>i\<in>set (investors r').
           find (\<lambda>x. has_name x \<and> name_key x = name_key i) harvested = Some i)"
proof -
  have out: "investors r' = first_by name_key (filter has_name harvested) {}"
    using populate_funding_lists[OF assms(1)] assms(2) by simp
  have sub: "subseq (investors r') (filter has_name harvested)"
    by (simp add: out first_by_subseq)
  have 1: "subseq (investors r') harvested"
    using sub subseq_filter_left[of has_name harvested] by (rule subseq_order.trans)
  have 2: "has_name i" if "i \<in> set (investors r')" for i
    using subseq_mem[OF sub that] by simp
  have 3: "distinct (map name_key (investors r'))"
    by (simp add: out first_by_distinct)
  have 4: "length (filter (\<lambda>x. name_key x = name_key i) (investors r')) = 1"
    if "i \<in> set harvested" "has_name i" for i
  proof -
    have "name_key i \<in> name_key ` set (investors r')"
      using that by (simp add: out first_by_keys)
    then obtain y where y: "y \<in> set (investors r')" "name_key y = name_key i"
      by auto
    have "length (filter (\<lambda>x. name_key x = name_key y) (investors r')) = 1"
      using y(1) 3 by (intro distinct_key_once) simp_all
    then show ?thesis by (simp add: y(2))
  qed
  have 5: "find (\<lambda>x. has_name x \<and> name_key x = name_key i) harvested = Some i"
    if "i \<in> set (investors r')" for i
    using first_by_first[of i name_key "filter has_name harvested" "{}"] that
    by (simp add: out find_in_filter)
  show ?thesis
  proof (intro conjI ballI impI)
    show "subseq (investors r') harvested" by (rule 1)
    show "has_name i" if "i \<in> set (investors r')" for i using that by (rule 2)
    show "distinct (map name_key (investors r'))" by (rule 3)
    show "length (filter (\<lambda>x. name_key x = name_key i) (investors r')) = 1"
      if "i \<in> set harvested" "has_name i" for i using that by (rule 4)
    show "find (\<lambda>x. has_name x \<and> name_key x = name_key i) harvested = Some i"
      if "i \<in> set (investors r')" for i using that by (rule 5)
  qed
qed

theorem investors_deduplicated_witness:
  "populate_funding_and_investors funding_runtime funding_page (new_CompanyRecord None)
     = Inr ((new_CompanyRecord None)
         \<lparr>funding_rounds := [round_2020, round_2021], investors := [investor_x, investor_y]\<rparr>)
   \<and> investors (funding_scripts_loop funding_runtime (find_all_script funding_page)
         (new_CompanyRecord None)) = [investor_x, investor_unnamed, investor_x_vc, investor_y]
   \<and> subseq [investor_x, investor_y] [investor_x, investor_unnamed, investor_x_vc, investor_y]
   \<and> has_name investor_x \<and> has_name investor_y
   \<and> distinct (map name_key [investor_x, investor_y])
   \<and> length (filter (\<lambda>x. name_key x = name_key investor_x_vc) [investor_x, investor_y]) = 1
   \<and> find (\<lambda>x. has_name x \<and> name_key x = name_key investor_x)
        [investor_x, investor_unnamed, investor_x_vc, investor_y] = Some investor_x
   \<and> find (\<lambda>x. has_name x \<and> name_key x = name_key investor_y)
        [investor_x, investor_unnamed, investor_x_vc, investor_y] = Some investor_y"
proof -
  have h: "investors (funding_scripts_loop funding_runtime (find_all_script funding_page)
         (new_CompanyRecord None)) = [investor_x, investor_unnamed, investor_x_vc, investor_y]"
    by (simp add: funding_page_harvest new_CompanyRecord_def)
  note t = investors_deduplicated [OF funding_page_populate [of None] h [symmetric]]
  have s: "investors ((new_CompanyRecord None)
         \<lparr>funding_rounds := [round_2020, round_2021], investors := [investor_x, investor_y]\<rparr>)
       = [investor_x, investor_y]" by simp
  show ?thesis
    using t unfolding s by (simp add: funding_page_populate h investor_names)
qed

subsection \<open>The returned mapping\<close>

text \<open>
  Claim C5, as worded: no null and no empty list or dict anywhere in the returned mapping.
  \<^verbatim>\<open>to_dict\<close> cleans the fields of the record only. On the page with the two funding scripts
  the returned mapping holds the round of 2020, whose \<open>amount\<close> is null and whose
  \<open>investors\<close> is the empty list (\<^verbatim>\<open>item.get("investors") or []\<close>).
\<close>

theorem nested_values_not_cleaned:
  "fst (extract_company_data funding_runtime [] funding_html None) = Inr funding_result
   \<and> \<not> nothing_empty_values funding_result
   \<and> dict_get round_2020 ''amount'' = JNull
   \<and> dict_get round_2020 ''investors'' = JList []"
  by (simp add: extract_funding_page)
     (simp add: funding_result_def round_2020_def dict_get_def)

text \<open>
  Claim C5, for the fields of the record: when \<^verbatim>\<open>extract_company_data\<close> returns, no value of
  the returned mapping is null, an empty list or an empty dict, no key stands twice, and
  \<open>company_status\<close> is present with a string.
\<close>

theorem to_dict_cleans_top_level:
  assumes "fst (extract_company_data rt lg html source_url) = Inr d"
  shows "(\<forall>kv\<in>set d. snd kv \<noteq> JNull \<and> snd kv \<noteq> JList [] \<and> snd kv \<noteq> JDict [])
     \<and> distinct (map fst d)
     \<and> (\<exists>s. map_of d ''company_status'' = Some (JStr s))"
proof -
  from extract_company_data_Inr[OF assms] obtain ld_org where
    "run_passes rt (BeautifulSoup rt html) ld_org (new_CompanyRecord source_url) = Inr d" ..
  from run_passes_fields[OF this] obtain r where d: "d = to_dict r"
    and s: "company_status r = Some (status_of (lower (get_text (BeautifulSoup rt html))))"
    by auto
  have a: "\<forall>kv\<in>set d. snd kv \<noteq> JNull \<and> snd kv \<noteq> JList [] \<and> snd kv \<noteq> JDict []"
  proof
    fix kv assume "kv \<in> set d"
    then have "(fst kv, snd kv) \<in> set (to_dict r)" by (simp add: d)
    then show "snd kv \<noteq> JNull \<and> snd kv \<noteq> JList [] \<and> snd kv \<noteq> JDict []"
      by (rule to_dict_values)
  qed
  have b: "distinct (map fst d)" unfolding d by (rule distinct_to_dict)
  have c: "\<exists>s. map_of d ''company_status'' = Some (JStr s)"
    unfolding d by (simp add: to_dict_company_status s)
  show ?thesis using a b c by (intro conjI)
qed

theorem to_dict_cleans_top_level_witness:
  "fst (extract_company_data funding_runtime [] funding_html None) = Inr funding_result
   \<and> JList [JDict round_2020, JDict round_2021] \<noteq> JList []
   \<and> JList [JDict investor_x, JDict investor_y] \<noteq> JList []
   \<and> distinct (map fst funding_result)
   \<and> map_of funding_result ''company_status'' = Some (JStr ''operational'')"
  using to_dict_cleans_top_level [OF extract_funding_page [of "[]" funding_html]]
  by (simp add: extract_funding_page) (simp add: funding_result_def)

subsection \<open>A call without source URL\<close>


end
